theory Spec2Isabelle
  imports Complex_Main
begin

section \<open>The job store (src/db/schema.ts, src/jobs.ts)\<close>

text \<open>
  The two enumerations of \<^verbatim>\<open>schema.ts\<close>. Each is a constant object whose keys
  map to the text stored in the table; \<open>SyncJobStatus_text\<close> and
  \<open>SyncEventType_text\<close> give that text.
\<close>

datatype SyncJobStatus = PENDING | SYNCED | BLOCKED

datatype SyncEventType = CREATE | UPDATE | DELETE

fun SyncJobStatus_text :: "SyncJobStatus \<Rightarrow> string" where
  "SyncJobStatus_text PENDING = ''PENDING''"
| "SyncJobStatus_text SYNCED = ''SYNCED''"
| "SyncJobStatus_text BLOCKED = ''BLOCKED''"

fun SyncEventType_text :: "SyncEventType \<Rightarrow> string" where
  "SyncEventType_text CREATE = ''CREATE''"
| "SyncEventType_text UPDATE = ''UPDATE''"
| "SyncEventType_text DELETE = ''DELETE''"

text \<open>
  The argument of \<^verbatim>\<open>enqueueJob\<close> and a row of the table \<^verbatim>\<open>sync_jobs\<close>. The column
  \<^verbatim>\<open>id\<close> is \<open>job_id\<close> here (\<open>id\<close> is the identity function of HOL). A time stamp
  of a row is the millisecond value of the \<^verbatim>\<open>Date\<close> the code reads from the row.
\<close>

record job_params =
  eventType :: SyncEventType
  localPath :: string
  remotePath :: string

record SyncJob = job_params +
  job_id :: nat
  status :: SyncJobStatus
  retryAt :: int
  nRetries :: nat
  lastError :: "string option"
  createdAt :: int

text \<open>
  The table: its rows in insertion order, and the counter behind the
  \<^verbatim>\<open>AUTOINCREMENT\<close> primary key.
\<close>

record db =
  syncJobs :: "SyncJob list"
  next_id :: nat

definition empty_db :: db where
  "empty_db = \<lparr>syncJobs = [], next_id = 1\<rparr>"

text \<open>
  The columns \<^verbatim>\<open>retry_at\<close> and \<^verbatim>\<open>created_at\<close> are integers of mode
  \<^verbatim>\<open>timestamp\<close>: a \<^verbatim>\<open>Date\<close> is written as its whole seconds
  (\<^verbatim>\<open>Math.floor(ms / 1000)\<close>) and read back as that second. \<open>timestamp_column ms\<close> is
  the millisecond value read back after \<open>ms\<close> was written.
\<close>

definition timestamp_column :: "int \<Rightarrow> int" where
  "timestamp_column ms = (ms div 1000) * 1000"

text \<open>
  \<^verbatim>\<open>enqueueJob(params, dryRun)\<close>: one unconditional \<^verbatim>\<open>INSERT\<close>. \<open>now\<close> is the
  reading of \<^verbatim>\<open>new Date()\<close>; the default of \<^verbatim>\<open>created_at\<close> is a second reading taken
  while the same row is built, modelled by the same value.
\<close>

definition enqueueJob :: "job_params \<Rightarrow> bool \<Rightarrow> int \<Rightarrow> db \<Rightarrow> db" where
  "enqueueJob params dryRun now d =
     (if dryRun then d
      else d\<lparr>syncJobs := syncJobs d @
                 [\<lparr>eventType = eventType params,
                   localPath = localPath params,
                   remotePath = remotePath params,
                   job_id = next_id d,
                   status = PENDING,
                   retryAt = timestamp_column now,
                   nRetries = 0,
                   lastError = None,
                   createdAt = timestamp_column now\<rparr>],
              next_id := Suc (next_id d)\<rparr>)"

text \<open>
  \<^verbatim>\<open>getNextPendingJob()\<close>: a \<^verbatim>\<open>SELECT\<close> of the rows with status PENDING and
  \<^verbatim>\<open>retry_at <= new Date()\<close>, ordered by \<^verbatim>\<open>retry_at\<close>, limited to one row. It is a
  query: it has no store to return. Among rows with the same least \<^verbatim>\<open>retry_at\<close> the
  model takes the one inserted first. The comparison is made on whole seconds, the
  column against the seconds of now; for a time stamp the store keeps, a whole second,
  that is the comparison of its millisecond value with now (lemma \<open>whole_second_le\<close>).
\<close>

definition ready :: "int \<Rightarrow> SyncJob \<Rightarrow> bool" where
  "ready now j = (status j = PENDING \<and> retryAt j \<le> now)"

fun first_least :: "SyncJob \<Rightarrow> SyncJob list \<Rightarrow> SyncJob" where
  "first_least b [] = b"
| "first_least b (j # js) = first_least (if retryAt j < retryAt b then j else b) js"

definition orderBy_retryAt_limit1 :: "SyncJob list \<Rightarrow> SyncJob option" where
  "orderBy_retryAt_limit1 rows = (case rows of [] \<Rightarrow> None | j # js \<Rightarrow> Some (first_least j js))"

definition getNextPendingJob :: "int \<Rightarrow> db \<Rightarrow> SyncJob option" where
  "getNextPendingJob now d = orderBy_retryAt_limit1 (filter (ready now) (syncJobs d))"

text \<open>The number of rows of a path that are PENDING, as \<^verbatim>\<open>getJobCounts\<close> counts rows.\<close>

definition pending_for :: "string \<Rightarrow> db \<Rightarrow> nat" where
  "pending_for p d = length (filter (\<lambda>j. status j = PENDING \<and> localPath j = p) (syncJobs d))"

definition update_a :: job_params where
  "update_a = \<lparr>eventType = UPDATE, localPath = ''/w/a.txt'', remotePath = ''w/a.txt''\<rparr>"

subsection \<open>Status updates and the retry schedule\<close>

definition MAX_RETRIES :: nat where
  "MAX_RETRIES = 10"

definition BASE_RETRY_DELAY_MS :: real where
  "BASE_RETRY_DELAY_MS = 1000"

definition MAX_RETRY_DELAY_MS :: real where
  "MAX_RETRY_DELAY_MS = 5 * 60 * 1000"

text \<open>\<^verbatim>\<open>UPDATE sync_jobs SET ... WHERE id = jobId\<close>: every row with that id is rewritten.\<close>

definition update_where_id :: "nat \<Rightarrow> (SyncJob \<Rightarrow> SyncJob) \<Rightarrow> db \<Rightarrow> db" where
  "update_where_id jobId f d =
     d\<lparr>syncJobs := map (\<lambda>j. if job_id j = jobId then f j else j) (syncJobs d)\<rparr>"

definition markJobSynced :: "nat \<Rightarrow> bool \<Rightarrow> db \<Rightarrow> db" where
  "markJobSynced jobId dryRun d =
     (if dryRun then d
      else update_where_id jobId (\<lambda>j. j\<lparr>status := SYNCED, lastError := None\<rparr>) d)"

definition markJobBlocked :: "nat \<Rightarrow> string \<Rightarrow> bool \<Rightarrow> db \<Rightarrow> db" where
  "markJobBlocked jobId error dryRun d =
     (if dryRun then d
      else update_where_id jobId (\<lambda>j. j\<lparr>status := BLOCKED, lastError := Some error\<rparr>) d)"

text \<open>
  The three local constants of \<^verbatim>\<open>scheduleRetry\<close>; \<open>rnd\<close> is the value
  \<^verbatim>\<open>Math.random()\<close> returned, a number in \<open>[0, 1)\<close>. Numbers are exact reals. The code
  computes in doubles, where each operation rounds to the nearest double: the base delay
  is exact, the product and the sum can be off by one rounding, and at the largest draw
  the computed delay is 1.5 times the base delay itself. Rounding keeps an inequality
  that is not strict between values that are doubles, so bounds on these constants are
  stated with \<open>\<le>\<close>, never with \<open><\<close>.
\<close>

definition retry_baseDelay :: "nat \<Rightarrow> real" where
  "retry_baseDelay nRetries' = min (BASE_RETRY_DELAY_MS * 2 ^ nRetries') MAX_RETRY_DELAY_MS"

definition retry_jitter :: "real \<Rightarrow> nat \<Rightarrow> real" where
  "retry_jitter rnd nRetries' = rnd * retry_baseDelay nRetries' * 0.5"

definition retry_delay :: "real \<Rightarrow> nat \<Rightarrow> real" where
  "retry_delay rnd nRetries' = retry_baseDelay nRetries' + retry_jitter rnd nRetries'"

text \<open>\<^verbatim>\<open>new Date(v)\<close> keeps the integral part of a time value (truncation towards zero).\<close>

definition new_Date :: "real \<Rightarrow> int" where
  "new_Date v = (if 0 \<le> v then \<lfloor>v\<rfloor> else \<lceil>v\<rceil>)"

text \<open>
  \<^verbatim>\<open>scheduleRetry(jobId, nRetries, error, dryRun)\<close>; \<open>now\<close> is the reading of
  \<^verbatim>\<open>Date.now()\<close>. The \<^verbatim>\<open>Date\<close> built from now plus the delay is written to the column
  \<^verbatim>\<open>retry_at\<close>, which keeps its whole seconds. The status column is not written.
\<close>

definition scheduleRetry :: "nat \<Rightarrow> nat \<Rightarrow> string \<Rightarrow> bool \<Rightarrow> int \<Rightarrow> real \<Rightarrow> db \<Rightarrow> db" where
  "scheduleRetry jobId nRetries' error dryRun now rnd d =
     (if dryRun then d
      else update_where_id jobId
             (\<lambda>j. j\<lparr>nRetries := nRetries' + 1,
                     retryAt := timestamp_column
                                  (new_Date (real_of_int now + retry_delay rnd nRetries')),
                     lastError := Some error\<rparr>) d)"

section \<open>The drive client and remote paths (delete and create modules)\<close>

text \<open>
  The interfaces the two modules declare for the client. A field typed \<^verbatim>\<open>unknown\<close>
  that the code only prints is a string here, absent when \<^verbatim>\<open>undefined\<close>. The client
  answers a listing with a finite sequence, and during one operation it answers a call
  by its arguments alone (nobody else changes the remote tree under the walk; its
  promises resolve, failures come back as results that are not ok). An upload is the
  chain uploader, stream, completion; its outcome is the node uid, or the message of the
  error the chain threw.
\<close>

record NodeData =
  nd_name :: string
  nd_uid :: string
  nd_type :: string

record NodeResult =
  nr_ok :: bool
  nr_value :: "NodeData option"
  nr_error :: "string option"

record RootFolderResult =
  rf_ok :: bool
  rf_value :: "string option"
  rf_error :: "string option"

record DeleteResult =
  dr_ok :: bool
  dr_error :: "string option"

record CreateFolderResult =
  cf_ok :: bool
  cf_value :: "string option"
  cf_error :: "string option"

record ProtonDriveClient =
  iterateFolderChildren :: "string \<Rightarrow> NodeResult list"
  getMyFilesRootFolder :: RootFolderResult
  trashNodes :: "string list \<Rightarrow> DeleteResult list"
  deleteNodes :: "string list \<Rightarrow> DeleteResult list"
  createFolder :: "string \<Rightarrow> string \<Rightarrow> CreateFolderResult"
  getFileUploader :: "string \<Rightarrow> string \<Rightarrow> string + string"
  getFileRevisionUploader :: "string \<Rightarrow> string + string"

text \<open>The calls a function issues to the client, in order.\<close>

datatype client_call =
    GetMyFilesRootFolder
  | IterateFolderChildren string
  | TrashNodes "string list"
  | DeleteNodes "string list"
  | CreateFolder string string
  | GetFileUploader string string
  | GetFileRevisionUploader string

subsection \<open>Strings and paths\<close>

definition startsWith :: "string \<Rightarrow> string \<Rightarrow> bool" where
  "startsWith s p = (take (length p) s = p)"

definition endsWith_slash :: "string \<Rightarrow> bool" where
  "endsWith_slash s = (s \<noteq> [] \<and> last s = CHR ''/'')"

fun split_on :: "char \<Rightarrow> string \<Rightarrow> string list" where
  "split_on c [] = [[]]"
| "split_on c (x # xs) =
     (if x = c then [] # split_on c xs
      else (case split_on c xs of [] \<Rightarrow> [[x]] | p # ps \<Rightarrow> (x # p) # ps))"

text \<open>
  \<^verbatim>\<open>basename\<close> and \<^verbatim>\<open>dirname\<close> of Node's \<^verbatim>\<open>path\<close> module (POSIX): trailing slashes are
  skipped, the base name is what follows the last remaining slash, the directory name is
  what precedes it.
\<close>

definition basename :: "string \<Rightarrow> string" where
  "basename p = rev (takeWhile (\<lambda>c. c \<noteq> CHR ''/'') (dropWhile (\<lambda>c. c = CHR ''/'') (rev p)))"

definition dirname :: "string \<Rightarrow> string" where
  "dirname p =
     (if p = [] then ''.''
      else let rest = dropWhile (\<lambda>c. c \<noteq> CHR ''/'')
                        (dropWhile (\<lambda>c. c = CHR ''/'') (rev (tl p)))
           in if rest = [] then (if hd p = CHR ''/'' then ''/'' else ''.'')
              else if hd p = CHR ''/'' \<and> length rest = 1 then ''//''
              else take (length rest) p)"

text \<open>A value printed inside a template string; \<^verbatim>\<open>undefined\<close> prints as its name.\<close>

definition template :: "string option \<Rightarrow> string" where
  "template v = (case v of None \<Rightarrow> ''undefined'' | Some s \<Rightarrow> s)"

text \<open>The message of \<^verbatim>\<open>new Error(m)\<close>: empty when \<^verbatim>\<open>m\<close> is \<^verbatim>\<open>undefined\<close>.\<close>

definition Error_message :: "string option \<Rightarrow> string" where
  "Error_message m = (case m of None \<Rightarrow> [] | Some s \<Rightarrow> s)"

text \<open>
  Reading \<^verbatim>\<open>.uid\<close> of a \<^verbatim>\<open>value\<close> that is \<^verbatim>\<open>undefined\<close> throws a TypeError; this is
  its message.
\<close>

definition TypeError_uid :: string where
  "TypeError_uid = ''Cannot read properties of undefined (reading 'uid')''"

text \<open>A string or \<^verbatim>\<open>null\<close> used as a condition: \<^verbatim>\<open>null\<close> and the empty string are falsy.\<close>

definition truthy :: "string option \<Rightarrow> bool" where
  "truthy v = (case v of None \<Rightarrow> False | Some s \<Rightarrow> s \<noteq> [])"

text \<open>\<^verbatim>\<open>parsePath\<close>, the same function in both modules.\<close>

definition parsePath :: "string \<Rightarrow> string list \<times> string" where
  "parsePath localPath' =
     (let relativePath1 =
            (if startsWith localPath' ''my_files/'' then drop (length ''my_files/'') localPath'
             else if startsWith localPath' ''./my_files/''
               then drop (length ''./my_files/'') localPath'
             else localPath');
          relativePath2 =
            (if endsWith_slash relativePath1 then butlast relativePath1 else relativePath1);
          name = basename relativePath2;
          dirPath = dirname relativePath2
      in if dirPath = ''.'' \<or> dirPath = [] then ([], name)
         else (filter (\<lambda>part. length part > 0) (split_on CHR ''/'' dirPath), name))"

subsection \<open>Deleting a node\<close>

text \<open>
  \<^verbatim>\<open>findNodeByName\<close> reads the whole listing and keeps the first entry that is ok and
  has the name, whatever its type.
\<close>

fun findNodeByName_loop ::
  "string \<Rightarrow> (string \<times> string) option \<Rightarrow> NodeResult list \<Rightarrow> (string \<times> string) option" where
  "findNodeByName_loop name found [] = found"
| "findNodeByName_loop name found (node # nodes) =
     findNodeByName_loop name
       (case nr_value node of
          Some v \<Rightarrow> if found = None \<and> nr_ok node \<and> nd_name v = name
                    then Some (nd_uid v, nd_type v) else found
        | None \<Rightarrow> found)
       nodes"

definition findNodeByName ::
  "ProtonDriveClient \<Rightarrow> string \<Rightarrow> string \<Rightarrow> (string \<times> string) option" where
  "findNodeByName c parentFolderUid name =
     findNodeByName_loop name None (iterateFolderChildren c parentFolderUid)"

text \<open>\<^verbatim>\<open>traverseRemotePath\<close>: \<^verbatim>\<open>null\<close> when a component is missing or is not a folder.\<close>

fun traverseRemotePath ::
  "ProtonDriveClient \<Rightarrow> string \<Rightarrow> string list \<Rightarrow> string option \<times> client_call list" where
  "traverseRemotePath c currentFolderUid [] = (Some currentFolderUid, [])"
| "traverseRemotePath c currentFolderUid (folderName # rest) =
     (case findNodeByName c currentFolderUid folderName of
        None \<Rightarrow> (None, [IterateFolderChildren currentFolderUid])
      | Some (uid, ty) \<Rightarrow>
          if ty \<noteq> ''folder'' then (None, [IterateFolderChildren currentFolderUid])
          else (case traverseRemotePath c uid rest of
                  (r, calls) \<Rightarrow> (r, IterateFolderChildren currentFolderUid # calls)))"

record DeleteOperationResult =
  del_success :: bool
  del_existed :: bool
  del_nodeUid :: "string option"
  del_nodeType :: "string option"
  del_error :: "string option"

text \<open>
  The last step of \<^verbatim>\<open>deleteNode\<close>: the \<^verbatim>\<open>try\<close> block that trashes or deletes the node
  found and stops at the first result that is not ok.
\<close>

definition delete_or_trash ::
  "ProtonDriveClient \<Rightarrow> bool \<Rightarrow> string \<times> string \<Rightarrow> DeleteOperationResult \<times> client_call list" where
  "delete_or_trash c permanent targetNode =
     (let results = (if permanent then deleteNodes c [fst targetNode]
                     else trashNodes c [fst targetNode]);
          issued = (if permanent then DeleteNodes [fst targetNode]
                    else TrashNodes [fst targetNode])
      in case find (\<lambda>r. \<not> dr_ok r) results of
           None \<Rightarrow>
             (\<lparr>del_success = True, del_existed = True, del_nodeUid = Some (fst targetNode),
               del_nodeType = Some (snd targetNode), del_error = None\<rparr>, [issued])
         | Some r \<Rightarrow>
             (\<lparr>del_success = False, del_existed = True, del_nodeUid = Some (fst targetNode),
               del_nodeType = Some (snd targetNode),
               del_error = Some ((if permanent then ''Failed to delete: ''
                                  else ''Failed to trash: '') @ template (dr_error r))\<rparr>,
              [issued]))"

text \<open>
  \<^verbatim>\<open>deleteNode(client, remotePath, permanent)\<close>. The result is \<open>Inl\<close> the message when
  the function throws, \<open>Inr\<close> the result object otherwise, with the calls issued.
\<close>

definition deleteNode ::
  "ProtonDriveClient \<Rightarrow> string \<Rightarrow> bool \<Rightarrow> (string + DeleteOperationResult) \<times> client_call list" where
  "deleteNode c remotePath' permanent =
     (case parsePath remotePath' of (parentParts, name) \<Rightarrow>
      let rootFolder = getMyFilesRootFolder c in
      if \<not> rf_ok rootFolder then
        (Inr \<lparr>del_success = False, del_existed = False, del_nodeUid = None, del_nodeType = None,
              del_error = Some (''Failed to get root folder: '' @ template (rf_error rootFolder))\<rparr>,
         [GetMyFilesRootFolder])
      else (case rf_value rootFolder of
        None \<Rightarrow> (Inl TypeError_uid, [GetMyFilesRootFolder])
      | Some rootFolderUid \<Rightarrow>
         (case (if length parentParts > 0 then traverseRemotePath c rootFolderUid parentParts
                else (Some rootFolderUid, [])) of
            (traverseResult, calls) \<Rightarrow>
              if length parentParts > 0 \<and> \<not> truthy traverseResult then
                (Inr \<lparr>del_success = True, del_existed = False, del_nodeUid = None,
                      del_nodeType = None, del_error = None\<rparr>,
                 GetMyFilesRootFolder # calls)
              else
                (let targetFolderUid = (case traverseResult of Some u \<Rightarrow> u | None \<Rightarrow> rootFolderUid)
                 in case findNodeByName c targetFolderUid name of
                      None \<Rightarrow>
                        (Inr \<lparr>del_success = True, del_existed = False, del_nodeUid = None,
                              del_nodeType = None, del_error = None\<rparr>,
                         GetMyFilesRootFolder # calls @ [IterateFolderChildren targetFolderUid])
                    | Some targetNode \<Rightarrow>
                        (case delete_or_trash c permanent targetNode of
                           (result, calls2) \<Rightarrow>
                             (Inr result,
                              GetMyFilesRootFolder # calls
                                @ [IterateFolderChildren targetFolderUid] @ calls2))))))"

subsection \<open>Creating a file or a directory\<close>

text \<open>
  \<^verbatim>\<open>findFileByName\<close> and \<^verbatim>\<open>findFolderByName\<close>: the accumulator is a string or
  \<^verbatim>\<open>null\<close>, and \<^verbatim>\<open>!foundUid\<close> holds for both \<^verbatim>\<open>null\<close> and the empty string.
\<close>

fun findByName_loop ::
  "string \<Rightarrow> string \<Rightarrow> string option \<Rightarrow> NodeResult list \<Rightarrow> string option" where
  "findByName_loop ty name foundUid [] = foundUid"
| "findByName_loop ty name foundUid (node # nodes) =
     findByName_loop ty name
       (case nr_value node of
          Some v \<Rightarrow> if \<not> truthy foundUid \<and> nr_ok node \<and> nd_name v = name \<and> nd_type v = ty
                    then Some (nd_uid v) else foundUid
        | None \<Rightarrow> foundUid)
       nodes"

definition findFileByName :: "ProtonDriveClient \<Rightarrow> string \<Rightarrow> string \<Rightarrow> string option" where
  "findFileByName c folderUid fileName =
     findByName_loop ''file'' fileName None (iterateFolderChildren c folderUid)"

definition findFolderByName :: "ProtonDriveClient \<Rightarrow> string \<Rightarrow> string \<Rightarrow> string option" where
  "findFolderByName c parentFolderUid folderName =
     findByName_loop ''folder'' folderName None (iterateFolderChildren c parentFolderUid)"

definition failed_to_create :: "string \<Rightarrow> string \<Rightarrow> string option \<Rightarrow> string" where
  "failed_to_create what name err =
     ''Failed to create '' @ what @ '' '' @ [CHR 0x22] @ name @ [CHR 0x22] @ '': '' @ template err"

text \<open>One \<^verbatim>\<open>createFolder\<close> call with the check of its result that follows it.\<close>

definition createFolder_checked ::
  "ProtonDriveClient \<Rightarrow> string \<Rightarrow> string \<Rightarrow> string \<Rightarrow> string + string" where
  "createFolder_checked c what parentUid name =
     (let result = createFolder c parentUid name in
      if \<not> cf_ok result then Inl (failed_to_create what name (cf_error result))
      else (case cf_value result of None \<Rightarrow> Inl TypeError_uid | Some uid \<Rightarrow> Inr uid))"

text \<open>
  \<^verbatim>\<open>ensureRemotePath\<close>: the loop state is the current folder and the flag
  \<^verbatim>\<open>needToCreate\<close>. \<open>Inl\<close> is the message of the error thrown.
\<close>

fun ensureRemotePath_loop ::
  "ProtonDriveClient \<Rightarrow> string \<Rightarrow> bool \<Rightarrow> string list \<Rightarrow> (string + string) \<times> client_call list" where
  "ensureRemotePath_loop c currentFolderUid needToCreate [] = (Inr currentFolderUid, [])"
| "ensureRemotePath_loop c currentFolderUid needToCreate (folderName # rest) =
     (if needToCreate then
        (case createFolder_checked c ''folder'' currentFolderUid folderName of
           Inl e \<Rightarrow> (Inl e, [CreateFolder currentFolderUid folderName])
         | Inr uid \<Rightarrow>
             (case ensureRemotePath_loop c uid True rest of
                (r, calls) \<Rightarrow> (r, CreateFolder currentFolderUid folderName # calls)))
      else
        (let existingFolderUid = findFolderByName c currentFolderUid folderName in
         if truthy existingFolderUid then
           (case ensureRemotePath_loop c (the existingFolderUid) False rest of
              (r, calls) \<Rightarrow> (r, IterateFolderChildren currentFolderUid # calls))
         else
           (case createFolder_checked c ''folder'' currentFolderUid folderName of
              Inl e \<Rightarrow> (Inl e, [IterateFolderChildren currentFolderUid,
                                  CreateFolder currentFolderUid folderName])
            | Inr uid \<Rightarrow>
                (case ensureRemotePath_loop c uid True rest of
                   (r, calls) \<Rightarrow>
                     (r, IterateFolderChildren currentFolderUid
                           # CreateFolder currentFolderUid folderName # calls)))))"

definition ensureRemotePath ::
  "ProtonDriveClient \<Rightarrow> string \<Rightarrow> string list \<Rightarrow> (string + string) \<times> client_call list" where
  "ensureRemotePath c rootFolderUid pathParts = ensureRemotePath_loop c rootFolderUid False pathParts"

definition uploadFile ::
  "ProtonDriveClient \<Rightarrow> string \<Rightarrow> string \<Rightarrow> (string + string) \<times> client_call list" where
  "uploadFile c targetFolderUid fileName =
     (let existingFileUid = findFileByName c targetFolderUid fileName in
      if truthy existingFileUid then
        (getFileRevisionUploader c (the existingFileUid),
         [IterateFolderChildren targetFolderUid, GetFileRevisionUploader (the existingFileUid)])
      else
        (getFileUploader c targetFolderUid fileName,
         [IterateFolderChildren targetFolderUid, GetFileUploader targetFolderUid fileName]))"

definition createDirectory ::
  "ProtonDriveClient \<Rightarrow> string \<Rightarrow> string \<Rightarrow> (string + string) \<times> client_call list" where
  "createDirectory c targetFolderUid dirName =
     (let existingFolderUid = findFolderByName c targetFolderUid dirName in
      if truthy existingFolderUid then
        (Inr (the existingFolderUid), [IterateFolderChildren targetFolderUid])
      else
        (createFolder_checked c ''directory'' targetFolderUid dirName,
         [IterateFolderChildren targetFolderUid, CreateFolder targetFolderUid dirName]))"

record Stats =
  st_isDirectory :: bool
  st_size :: nat
  st_mtime :: int

record CreateResult =
  cr_success :: bool
  cr_nodeUid :: "string option"
  cr_error :: "string option"
  cr_isDirectory :: bool

text \<open>
  \<^verbatim>\<open>create(client, localPath)\<close>. \<open>statSync\<close> is the local file system: \<open>None\<close> where
  \<^verbatim>\<open>statSync\<close> throws. \<^verbatim>\<open>ensureRemotePath\<close> is called outside the \<^verbatim>\<open>try\<close> block, so an
  error it throws leaves \<^verbatim>\<open>create\<close> as an exception (\<open>Inl\<close>).
\<close>

definition create ::
  "ProtonDriveClient \<Rightarrow> (string \<Rightarrow> Stats option) \<Rightarrow> string
     \<Rightarrow> (string + CreateResult) \<times> client_call list" where
  "create c statSync localPath' =
     (let pathStat = statSync localPath' in
      if pathStat = None \<and> \<not> endsWith_slash localPath' then
        (Inr \<lparr>cr_success = False, cr_nodeUid = None,
              cr_error = Some (''Path not found: '' @ localPath'
                 @ ''. For creating a new directory, add a trailing slash.''),
              cr_isDirectory = False\<rparr>, [])
      else
        (let isDirectory = (case pathStat of Some st \<Rightarrow> st_isDirectory st | None \<Rightarrow> True) in
         case parsePath localPath' of (parentParts, name) \<Rightarrow>
         let rootFolder = getMyFilesRootFolder c in
         if \<not> rf_ok rootFolder then
           (Inr \<lparr>cr_success = False, cr_nodeUid = None,
                 cr_error = Some (''Failed to get root folder: '' @ template (rf_error rootFolder)),
                 cr_isDirectory = isDirectory\<rparr>, [GetMyFilesRootFolder])
         else (case rf_value rootFolder of
           None \<Rightarrow> (Inl TypeError_uid, [GetMyFilesRootFolder])
         | Some rootFolderUid \<Rightarrow>
            (case (if length parentParts > 0 then ensureRemotePath c rootFolderUid parentParts
                   else (Inr rootFolderUid, [])) of
               (Inl thrown, calls) \<Rightarrow> (Inl thrown, GetMyFilesRootFolder # calls)
             | (Inr targetFolderUid, calls) \<Rightarrow>
                 (case (if isDirectory then createDirectory c targetFolderUid name
                        else uploadFile c targetFolderUid name) of
                    (Inr nodeUid, calls2) \<Rightarrow>
                      (Inr \<lparr>cr_success = True, cr_nodeUid = Some nodeUid, cr_error = None,
                            cr_isDirectory = isDirectory\<rparr>,
                       GetMyFilesRootFolder # calls @ calls2)
                  | (Inl message, calls2) \<Rightarrow>
                      (Inr \<lparr>cr_success = False, cr_nodeUid = None, cr_error = Some message,
                            cr_isDirectory = isDirectory\<rparr>,
                       GetMyFilesRootFolder # calls @ calls2))))))"

subsection \<open>What the drive holds at a path\<close>

text \<open>
  The remote tree as the client lists it, independently of how \<^verbatim>\<open>deleteNode\<close> walks
  it: the entries of a folder that are ok and carry a name, the folders reached from a
  folder along a path of folder names (through any entry of the name that is a folder),
  and whether some node of a name lies in one of the folders reached.
\<close>

definition children_named :: "ProtonDriveClient \<Rightarrow> string \<Rightarrow> string \<Rightarrow> NodeData list" where
  "children_named c folderUid name =
     List.map_filter
       (\<lambda>node. case nr_value node of
                  Some v \<Rightarrow> if nr_ok node \<and> nd_name v = name then Some v else None
                | None \<Rightarrow> None)
       (iterateFolderChildren c folderUid)"

fun folders_at :: "ProtonDriveClient \<Rightarrow> string \<Rightarrow> string list \<Rightarrow> string list" where
  "folders_at c folderUid [] = [folderUid]"
| "folders_at c folderUid (p # ps) =
     concat (map (\<lambda>v. folders_at c (nd_uid v) ps)
               (filter (\<lambda>v. nd_type v = ''folder'') (children_named c folderUid p)))"

definition remote_node_exists ::
  "ProtonDriveClient \<Rightarrow> string \<Rightarrow> string list \<Rightarrow> string \<Rightarrow> bool" where
  "remote_node_exists c rootFolderUid parentParts name =
     (\<exists>u \<in> set (folders_at c rootFolderUid parentParts). children_named c u name \<noteq> [])"

fun is_removal :: "client_call \<Rightarrow> bool" where
  "is_removal (TrashNodes uids) = True"
| "is_removal (DeleteNodes uids) = True"
| "is_removal other = False"

section \<open>The executor (src/jobs.ts)\<close>

text \<open>
  What one call of \<^verbatim>\<open>processNextJob\<close> reads from outside the store: the clock at the
  selection, the drive client as it answers during \<^verbatim>\<open>deleteNode\<close>, the outcome of
  \<^verbatim>\<open>createNode\<close> (of \<^verbatim>\<open>create.js\<close>, a module that is not among the sources: its
  outcome is taken as given, \<open>Inl\<close> the message of an error it throws), the clock read
  by \<^verbatim>\<open>scheduleRetry\<close> and the draw of \<^verbatim>\<open>Math.random()\<close>.
\<close>

record CreateNodeResult =
  cn_success :: bool
  cn_nodeUid :: "string option"
  cn_error :: "string option"

record tick =
  now_select :: int
  client :: ProtonDriveClient
  createNode_outcome :: "string + CreateNodeResult"
  now_retry :: int
  random :: real

text \<open>One visit of the executor to a job: the job, the calls issued, the error caught.\<close>

record attempt =
  att_job :: nat
  att_calls :: "client_call list"
  att_error :: "string option"

text \<open>
  The \<^verbatim>\<open>try\<close> block of \<^verbatim>\<open>processNextJob\<close> up to the status update: \<open>None\<close> when it
  completes, the message of the error caught otherwise.
\<close>

definition run_job :: "tick \<Rightarrow> SyncJob \<Rightarrow> string option \<times> client_call list" where
  "run_job t job =
     (if eventType job = DELETE then
        (case deleteNode (client t) (remotePath job) False of
           (Inl thrown, calls) \<Rightarrow> (Some thrown, calls)
         | (Inr result, calls) \<Rightarrow>
             if \<not> del_success result then (Some (Error_message (del_error result)), calls)
             else (None, calls))
      else
        (case createNode_outcome t of
           Inl thrown \<Rightarrow> (Some thrown, [])
         | Inr result \<Rightarrow>
             if \<not> cn_success result then (Some (Error_message (cn_error result)), [])
             else (None, [])))"

definition processNextJob :: "tick \<Rightarrow> bool \<Rightarrow> db \<Rightarrow> bool \<times> db \<times> attempt list" where
  "processNextJob t dryRun d =
     (case getNextPendingJob (now_select t) d of
        None \<Rightarrow> (False, d, [])
      | Some job \<Rightarrow>
          (case run_job t job of
             (None, calls) \<Rightarrow>
               (True, markJobSynced (job_id job) dryRun d,
                [\<lparr>att_job = job_id job, att_calls = calls, att_error = None\<rparr>])
           | (Some errorMessage, calls) \<Rightarrow>
               (True,
                (if nRetries job \<ge> MAX_RETRIES
                 then markJobBlocked (job_id job) errorMessage dryRun d
                 else scheduleRetry (job_id job) (nRetries job) errorMessage dryRun
                        (now_retry t) (random t) d),
                [\<lparr>att_job = job_id job, att_calls = calls, att_error = Some errorMessage\<rparr>])))"

text \<open>
  \<^verbatim>\<open>processAllPendingJobs\<close>: the \<^verbatim>\<open>while\<close> loop. The call number \<open>count\<close> reads
  \<open>env count\<close>. The loop need not end (in a dry run a ready job stays ready), so the
  result is an option: \<open>None\<close> when the loop never returns.
\<close>

partial_function (option) processAllPendingJobs_loop ::
  "(nat \<Rightarrow> tick) \<Rightarrow> bool \<Rightarrow> nat \<Rightarrow> attempt list \<Rightarrow> db \<Rightarrow> (nat \<times> db \<times> attempt list) option" where
  "processAllPendingJobs_loop env dryRun count visits d =
     (case processNextJob (env count) dryRun d of
        (processed, d', a) \<Rightarrow>
          if processed then processAllPendingJobs_loop env dryRun (Suc count) (visits @ a) d'
          else Some (count, d', visits))"

definition processAllPendingJobs ::
  "(nat \<Rightarrow> tick) \<Rightarrow> bool \<Rightarrow> db \<Rightarrow> (nat \<times> db \<times> attempt list) option" where
  "processAllPendingJobs env dryRun d = processAllPendingJobs_loop env dryRun 0 [] d"

text \<open>\<^verbatim>\<open>getJobCounts\<close>: pending, synced, blocked.\<close>

definition count_status :: "SyncJobStatus \<Rightarrow> db \<Rightarrow> nat" where
  "count_status s d = length (filter (\<lambda>j. status j = s) (syncJobs d))"

definition getJobCounts :: "db \<Rightarrow> nat \<times> nat \<times> nat" where
  "getJobCounts d = (count_status PENDING d, count_status SYNCED d, count_status BLOCKED d)"

text \<open>
  The operations that act on the store, and the states they reach from a store: a call of
  \<^verbatim>\<open>enqueueJob\<close> (with its clock reading) or a call of \<^verbatim>\<open>processNextJob\<close>.
\<close>

datatype store_op = Enqueue job_params bool int | Process tick bool

fun apply_op :: "db \<Rightarrow> store_op \<Rightarrow> db" where
  "apply_op d (Enqueue params dryRun now) = enqueueJob params dryRun now d"
| "apply_op d (Process t dryRun) = fst (snd (processNextJob t dryRun d))"

definition run_ops :: "store_op list \<Rightarrow> db \<Rightarrow> db" where
  "run_ops ops d = foldl apply_op d ops"

text \<open>
  The rows of a local path, whatever their status, and the operations that insert one:
  the calls of \<^verbatim>\<open>enqueueJob\<close> for the path outside a dry run.
\<close>

fun enqueues_path :: "string \<Rightarrow> store_op \<Rightarrow> bool" where
  "enqueues_path p (Enqueue params dryRun now) = (\<not> dryRun \<and> localPath params = p)"
| "enqueues_path p (Process t dryRun) = False"

definition rows_for :: "string \<Rightarrow> db \<Rightarrow> nat" where
  "rows_for p d = length (filter (\<lambda>j. localPath j = p) (syncJobs d))"

text \<open>Every time stamp of the store is a whole second.\<close>

definition whole_seconds :: "db \<Rightarrow> bool" where
  "whole_seconds d =
     list_all (\<lambda>j. retryAt j mod 1000 = 0 \<and> createdAt j mod 1000 = 0) (syncJobs d)"

text \<open>
  An invariant of the store: ids are distinct and below the counter, and no row has been
  retried more than \<open>MAX_RETRIES\<close> times.
\<close>

definition store_inv :: "db \<Rightarrow> bool" where
  "store_inv d =
     (distinct (map job_id (syncJobs d)) \<and>
      (\<forall>j \<in> set (syncJobs d). job_id j < next_id d \<and> nRetries j \<le> MAX_RETRIES))"

subsection \<open>Example environments\<close>

text \<open>A drive whose root folder is empty, one whose root lookup fails.\<close>

definition empty_drive :: ProtonDriveClient where
  "empty_drive =
     \<lparr>iterateFolderChildren = (\<lambda>uid. []),
      getMyFilesRootFolder = \<lparr>rf_ok = True, rf_value = Some ''root'', rf_error = None\<rparr>,
      trashNodes = (\<lambda>uids. [\<lparr>dr_ok = True, dr_error = None\<rparr>]),
      deleteNodes = (\<lambda>uids. [\<lparr>dr_ok = True, dr_error = None\<rparr>]),
      createFolder = (\<lambda>parent name. \<lparr>cf_ok = True, cf_value = Some ''new'', cf_error = None\<rparr>),
      getFileUploader = (\<lambda>parent name. Inr ''file1''),
      getFileRevisionUploader = (\<lambda>uid. Inr uid)\<rparr>"

text \<open>
  An environment in which every clock reading is \<open>now\<close>, every upload fails with a
  network error and the random draw is \<open>rnd\<close>; one in which every upload succeeds.
\<close>

definition failing_tick :: "int \<Rightarrow> real \<Rightarrow> tick" where
  "failing_tick now rnd =
     \<lparr>now_select = now, client = empty_drive,
      createNode_outcome = Inr \<lparr>cn_success = False, cn_nodeUid = None,
                                 cn_error = Some ''NetworkTransient''\<rparr>,
      now_retry = now, random = rnd\<rparr>"

definition succeeding_tick :: "int \<Rightarrow> tick" where
  "succeeding_tick now =
     \<lparr>now_select = now, client = empty_drive,
      createNode_outcome = Inr \<lparr>cn_success = True, cn_nodeUid = Some ''file1'', cn_error = None\<rparr>,
      now_retry = now, random = 0\<rparr>"

section \<open>The sync command: change buffer and one-shot sync\<close>

text \<open>
  A file change as the sync command declares it. The fields are those of the Watchman
  query (\<^verbatim>\<open>name\<close>, \<^verbatim>\<open>size\<close>, \<^verbatim>\<open>mtime_ms\<close>, \<^verbatim>\<open>exists\<close>, \<^verbatim>\<open>type\<close>) and the two the
  command adds. The functions below are stated for every extension of the record: they
  read \<^verbatim>\<open>name\<close>, \<^verbatim>\<open>exists\<close>, \<^verbatim>\<open>type\<close> and \<^verbatim>\<open>watchRoot\<close> and ignore whatever else a
  delivered record carries. \<open>FileChange_ino\<close> is such an extension, with the inode the
  watcher module asks Watchman for.
\<close>

record FileChange =
  fc_name :: string
  fc_size :: nat
  fc_mtime_ms :: int
  fc_exists :: bool
  fc_type :: string
  fc_watchRoot :: string
  fc_clock :: "string option"

record FileChange_ino = FileChange +
  fc_ino :: nat

text \<open>
  \<^verbatim>\<open>Map.prototype.set\<close> on a map kept in insertion order: a key that is present keeps
  its place and takes the new value.
\<close>

fun Map_set :: "'k \<Rightarrow> 'v \<Rightarrow> ('k \<times> 'v) list \<Rightarrow> ('k \<times> 'v) list" where
  "Map_set k v [] = [(k, v)]"
| "Map_set k v ((k', v') # m) = (if k' = k then (k, v) # m else (k', v') # Map_set k v m)"

text \<open>
  The module state of the sync command, with the two stores it writes. The drive client
  itself answers through the environment of the executor; \<open>protonClient_set\<close> says
  whether the variable \<^verbatim>\<open>protonClient\<close> is set, \<open>debounceTimer\<close> whether the timer runs.
\<close>

record 'a sync_module =
  dryRun_opt :: bool
  remoteRoot :: string
  pendingChanges :: "(string \<times> 'a FileChange_scheme) list"
  debounceTimer :: bool
  isProcessing :: bool
  protonClient_set :: bool
  jobs_db :: db
  clocks :: "(string \<times> string) list"

text \<open>
  Modelled from the spec: \<^verbatim>\<open>getClock\<close> and \<^verbatim>\<open>setClock\<close> of \<^verbatim>\<open>state.js\<close>, which is not
  among the sources. Section 4.1: \<^verbatim>\<open>get(watch_root)\<close> returns the clock if there is
  one; \<^verbatim>\<open>set(watch_root, clock, dry_run)\<close> is last-writer-wins per root and a no-op when
  \<^verbatim>\<open>dry_run\<close> is true.
\<close>

definition getClock :: "string \<Rightarrow> 'a sync_module \<Rightarrow> string option" where
  "getClock directory m = map_of (clocks m) directory"

definition setClock :: "string \<Rightarrow> string \<Rightarrow> bool \<Rightarrow> 'a sync_module \<Rightarrow> 'a sync_module" where
  "setClock directory clock dryRun m =
     (if dryRun then m else m\<lparr>clocks := Map_set directory clock (clocks m)\<rparr>)"

definition queueChange :: "'a FileChange_scheme \<Rightarrow> bool \<Rightarrow> 'a sync_module \<Rightarrow> 'a sync_module" where
  "queueChange file schedule m =
     m\<lparr>pendingChanges := Map_set (fc_name file) file (pendingChanges m),
       debounceTimer := (if schedule then True else debounceTimer m)\<rparr>"

text \<open>
  The body of the \<^verbatim>\<open>for\<close> loop of \<^verbatim>\<open>processChanges\<close>: the job enqueued for one entry
  of the buffer.
\<close>

definition job_of_change :: "string \<Rightarrow> string \<Rightarrow> 'a FileChange_scheme \<Rightarrow> job_params" where
  "job_of_change remoteRoot' path change =
     (let dirName = basename (fc_watchRoot change) in
      \<lparr>eventType = (if \<not> fc_exists change then DELETE
                     else if fc_type change = ''d'' then CREATE
                     else UPDATE),
       localPath = fc_watchRoot change @ ''/'' @ path,
       remotePath = (if remoteRoot' \<noteq> [] then remoteRoot' @ ''/'' @ dirName @ ''/'' @ path
                     else dirName @ ''/'' @ path)\<rparr>)"

text \<open>The loop; the enqueue number \<open>i\<close> reads the clock \<open>clock i\<close>.\<close>

fun enqueue_changes ::
  "string \<Rightarrow> bool \<Rightarrow> (nat \<Rightarrow> int) \<Rightarrow> nat \<Rightarrow> (string \<times> 'a FileChange_scheme) list \<Rightarrow> db \<Rightarrow> db" where
  "enqueue_changes remoteRoot' dryRun clock i [] d = d"
| "enqueue_changes remoteRoot' dryRun clock i ((path, change) # rest) d =
     enqueue_changes remoteRoot' dryRun clock (Suc i) rest
       (enqueueJob (job_of_change remoteRoot' path change) dryRun (clock i) d)"

text \<open>
  \<^verbatim>\<open>processChanges\<close>: snapshot and clear the buffer, enqueue one job per entry, then run
  the executor. \<open>None\<close> when the executor loop does not return.
\<close>

definition processChanges ::
  "(nat \<Rightarrow> int) \<Rightarrow> (nat \<Rightarrow> tick) \<Rightarrow> 'a sync_module \<Rightarrow> 'a sync_module option" where
  "processChanges clock env m =
     (if isProcessing m \<or> \<not> protonClient_set m then Some m
      else
        (let changes = pendingChanges m;
             enqueued = enqueue_changes (remoteRoot m) (dryRun_opt m) clock 0 changes (jobs_db m)
         in case processAllPendingJobs env (dryRun_opt m) enqueued of
              None \<Rightarrow> None
            | Some (processed, d', visits) \<Rightarrow>
                Some (m\<lparr>pendingChanges := [], isProcessing := False, jobs_db := d'\<rparr>)))"

text \<open>
  The answer of Watchman to the query of one directory, and the body that
  \<^verbatim>\<open>runOneShotSync\<close> runs for it: read the saved clock, query, save the returned clock,
  then put the files into the buffer. After the answer arrives the body runs without
  interruption, so the directories take their turns one after the other, here in the
  order of the list.
\<close>

record 'a WatchmanQueryResponse =
  wq_clock :: string
  wq_files :: "'a FileChange_scheme list"

definition oneShot_dir ::
  "(string \<Rightarrow> string) \<Rightarrow> (string \<Rightarrow> string option \<Rightarrow> 'a WatchmanQueryResponse) \<Rightarrow>
     'a sync_module \<Rightarrow> string \<Rightarrow> 'a sync_module" where
  "oneShot_dir realpathSync queryWatchman m dir =
     (let watchDir = realpathSync dir;
          savedClock = getClock watchDir m;
          resp = queryWatchman watchDir savedClock;
          saved = (if wq_clock resp \<noteq> [] then setClock watchDir (wq_clock resp) (dryRun_opt m) m
                   else m)
      in foldl (\<lambda>m' file. queueChange (file\<lparr>fc_watchRoot := watchDir\<rparr>) False m')
           saved (wq_files resp))"

definition query_all ::
  "(string \<Rightarrow> string) \<Rightarrow> (string \<Rightarrow> string option \<Rightarrow> 'a WatchmanQueryResponse) \<Rightarrow>
     string list \<Rightarrow> 'a sync_module \<Rightarrow> 'a sync_module" where
  "query_all realpathSync queryWatchman sync_dirs m =
     foldl (oneShot_dir realpathSync queryWatchman) m sync_dirs"

definition runOneShotSync ::
  "(string \<Rightarrow> string) \<Rightarrow> (string \<Rightarrow> string option \<Rightarrow> 'a WatchmanQueryResponse) \<Rightarrow>
     (nat \<Rightarrow> int) \<Rightarrow> (nat \<Rightarrow> tick) \<Rightarrow> string list \<Rightarrow> 'a sync_module \<Rightarrow> 'a sync_module option" where
  "runOneShotSync realpathSync queryWatchman clock env sync_dirs m =
     (let queried = query_all realpathSync queryWatchman sync_dirs m in
      if length (pendingChanges queried) = 0 then Some queried
      else processChanges clock env queried)"

section \<open>The one-shot query of the watcher module (src/sync/watcher.ts)\<close>

text \<open>
  \<^verbatim>\<open>queryAllChanges(config, onFileChangeBatch, dryRun)\<close>. The batch handler is an
  argument of the function, so the model returns what the function does to the outside,
  in order: the call of \<^verbatim>\<open>setClock\<close> and the call of the handler. The second component
  is \<^verbatim>\<open>totalChanges\<close>. \<open>savedClocks\<close> is the clock store as \<^verbatim>\<open>getClock\<close> reads it.
\<close>

datatype 'a watcher_effect =
    SetClock string string bool
  | OnFileChangeBatch "'a FileChange_scheme list"

definition queryAllChanges_dir ::
  "(string \<Rightarrow> string) \<Rightarrow> (string \<Rightarrow> string option \<Rightarrow> 'a WatchmanQueryResponse) \<Rightarrow>
     (string \<Rightarrow> string option) \<Rightarrow> bool \<Rightarrow> string \<Rightarrow> 'a watcher_effect list \<times> nat" where
  "queryAllChanges_dir realpathSync queryWatchman savedClocks dryRun source_path =
     (let watchDir = realpathSync source_path;
          savedClock = savedClocks watchDir;
          resp = queryWatchman watchDir savedClock;
          files = wq_files resp
      in ((if wq_clock resp \<noteq> [] then [SetClock watchDir (wq_clock resp) dryRun] else [])
          @ (if length files > 0
             then [OnFileChangeBatch (map (\<lambda>file. file\<lparr>fc_watchRoot := watchDir\<rparr>) files)]
             else []),
          length files))"

definition queryAllChanges ::
  "(string \<Rightarrow> string) \<Rightarrow> (string \<Rightarrow> string option \<Rightarrow> 'a WatchmanQueryResponse) \<Rightarrow>
     (string \<Rightarrow> string option) \<Rightarrow> bool \<Rightarrow> string list \<Rightarrow> 'a watcher_effect list \<times> nat" where
  "queryAllChanges realpathSync queryWatchman savedClocks dryRun sync_dirs =
     (let answers = map (queryAllChanges_dir realpathSync queryWatchman savedClocks dryRun) sync_dirs
      in (concat (map fst answers), sum_list (map snd answers)))"

section \<open>Example inputs\<close>

definition fresh_module :: "'a sync_module" where
  "fresh_module =
     \<lparr>dryRun_opt = False, remoteRoot = [], pendingChanges = [], debounceTimer = False,
      isProcessing = False, protonClient_set = True, jobs_db = empty_db, clocks = []\<rparr>"

text \<open>A rename seen by Watchman: the old name is gone, the new name has the same inode.\<close>

definition removed_old :: FileChange_ino where
  "removed_old =
     \<lparr>fc_name = ''old.txt'', fc_size = 5, fc_mtime_ms = 100, fc_exists = False, fc_type = ''f'',
      fc_watchRoot = ''/w'', fc_clock = None, fc_ino = 42\<rparr>"

definition added_new :: FileChange_ino where
  "added_new =
     \<lparr>fc_name = ''new.txt'', fc_size = 5, fc_mtime_ms = 100, fc_exists = True, fc_type = ''f'',
      fc_watchRoot = ''/w'', fc_clock = None, fc_ino = 42\<rparr>"

definition rename_batch :: "(string \<times> FileChange_ino) list" where
  "rename_batch = [(''old.txt'', removed_old), (''new.txt'', added_new)]"

definition one_file_response :: "string \<Rightarrow> string option \<Rightarrow> unit WatchmanQueryResponse" where
  "one_file_response watchDir since =
     \<lparr>wq_clock = ''c:1:7'',
      wq_files = [\<lparr>fc_name = ''a.txt'', fc_size = 10, fc_mtime_ms = 100, fc_exists = True,
                   fc_type = ''f'', fc_watchRoot = [], fc_clock = None\<rparr>]\<rparr>"

definition always_failing :: "nat \<Rightarrow> tick" where
  "always_failing n = failing_tick 5250 0"

definition failing_at :: "nat \<Rightarrow> tick" where
  "failing_at i = failing_tick (int i * 1000000) 0"

definition ten_failures :: "store_op list" where
  "ten_failures = Enqueue update_a False 0 # map (\<lambda>i. Process (failing_at i) False) [1..<11]"

definition eleven_failures :: "store_op list" where
  "eleven_failures = ten_failures @ [Process (failing_at 11) False]"

definition retried_once :: db where
  "retried_once =
     \<lparr>syncJobs = [\<lparr>eventType = UPDATE, localPath = ''/w/a.txt'', remotePath = ''w/a.txt'',
                    job_id = 1, status = PENDING, retryAt = 6000, nRetries = 1,
                    lastError = Some ''NetworkTransient'', createdAt = 5000\<rparr>],
      next_id = 2\<rparr>"

text \<open>The result of \<^verbatim>\<open>deleteNode\<close> when there is nothing to delete.\<close>

definition not_existed :: DeleteOperationResult where
  "not_existed = \<lparr>del_success = True, del_existed = False, del_nodeUid = None,
       del_nodeType = None, del_error = None\<rparr>"

definition delete_a :: job_params where
  "delete_a = \<lparr>eventType = DELETE, localPath = ''/w/a.txt'', remotePath = ''w/a.txt''\<rparr>"

definition nothing_local :: "string \<Rightarrow> Stats option" where
  "nothing_local p = None"

definition always_succeeding :: "nat \<Rightarrow> tick" where
  "always_succeeding n = succeeding_tick 5250"

definition renamed_db :: db where
  "renamed_db =
     \<lparr>syncJobs =
        [\<lparr>eventType = DELETE, localPath = ''/w/old.txt'', remotePath = ''w/old.txt'',
          job_id = 1, status = SYNCED, retryAt = 5000, nRetries = 0, lastError = None,
          createdAt = 5000\<rparr>,
         \<lparr>eventType = UPDATE, localPath = ''/w/new.txt'', remotePath = ''w/new.txt'',
          job_id = 2, status = SYNCED, retryAt = 5000, nRetries = 0, lastError = None,
          createdAt = 5000\<rparr>],
      next_id = 3\<rparr>"

definition steady_clock :: "nat \<Rightarrow> int" where
  "steady_clock i = 5250"

definition no_clock :: "string \<Rightarrow> string option" where
  "no_clock directory = None"

definition same_path :: "string \<Rightarrow> string" where
  "same_path dir = dir"

section \<open>Lemmas on the selection\<close>

lemma first_least_mem: "first_least b js \<in> set (b # js)"
  by (induction js arbitrary: b) auto

lemma first_least_le: "\<forall>x \<in> set (b # js). retryAt (first_least b js) \<le> retryAt x"
proof (induction js arbitrary: b)
  case Nil
  then show ?case by simp
next
  case (Cons j js)
  let ?b = "if retryAt j < retryAt b then j else b"
  have IH: "\<forall>x \<in> set (?b # js). retryAt (first_least ?b js) \<le> retryAt x"
    by (rule Cons.IH)
  have "retryAt (first_least ?b js) \<le> retryAt ?b"
    using IH by simp
  then have "retryAt (first_least ?b js) \<le> retryAt b" "retryAt (first_least ?b js) \<le> retryAt j"
    by (auto split: if_splits)
  with IH show ?case by simp
qed

lemma orderBy_retryAt_limit1_Some:
  "orderBy_retryAt_limit1 rows = Some j \<Longrightarrow> j \<in> set rows \<and> (\<forall>x \<in> set rows. retryAt j \<le> retryAt x)"
  unfolding orderBy_retryAt_limit1_def
  using first_least_mem first_least_le
  by (cases rows) (auto simp del: first_least.simps)

lemma orderBy_retryAt_limit1_None: "orderBy_retryAt_limit1 rows = None \<longleftrightarrow> rows = []"
  unfolding orderBy_retryAt_limit1_def by (cases rows) auto

lemma getNextPendingJob_Some:
  "getNextPendingJob now d = Some j \<Longrightarrow>
     j \<in> set (syncJobs d) \<and> status j = PENDING \<and> retryAt j \<le> now \<and>
     (\<forall>x \<in> set (syncJobs d). ready now x \<longrightarrow> retryAt j \<le> retryAt x)"
  unfolding getNextPendingJob_def
  by (drule orderBy_retryAt_limit1_Some) (auto simp: ready_def)

lemma getNextPendingJob_None:
  "getNextPendingJob now d = None \<longleftrightarrow> (\<forall>x \<in> set (syncJobs d). \<not> ready now x)"
  unfolding getNextPendingJob_def orderBy_retryAt_limit1_None
  by (auto simp: filter_empty_conv)

section \<open>Lemmas on the executor\<close>

lemma syncJobs_update_where_id:
  "syncJobs (update_where_id i f d) = map (\<lambda>j. if job_id j = i then f j else j) (syncJobs d)"
  by (simp add: update_where_id_def)

lemma next_id_update_where_id: "next_id (update_where_id i f d) = next_id d"
  by (simp add: update_where_id_def)

lemma processNextJob_None:
  "getNextPendingJob (now_select t) d = None \<Longrightarrow> processNextJob t dryRun d = (False, d, [])"
  by (simp add: processNextJob_def)

lemma processNextJob_completed:
  "getNextPendingJob (now_select t) d = Some job \<Longrightarrow> run_job t job = (None, calls) \<Longrightarrow>
     processNextJob t dryRun d =
       (True, markJobSynced (job_id job) dryRun d,
        [\<lparr>att_job = job_id job, att_calls = calls, att_error = None\<rparr>])"
  by (simp add: processNextJob_def)

lemma processNextJob_failed:
  "getNextPendingJob (now_select t) d = Some job \<Longrightarrow> run_job t job = (Some msg, calls) \<Longrightarrow>
     processNextJob t dryRun d =
       (True,
        (if nRetries job \<ge> MAX_RETRIES then markJobBlocked (job_id job) msg dryRun d
         else scheduleRetry (job_id job) (nRetries job) msg dryRun (now_retry t) (random t) d),
        [\<lparr>att_job = job_id job, att_calls = calls, att_error = Some msg\<rparr>])"
  by (simp add: processNextJob_def)

lemma processNextJob_fst:
  "fst (processNextJob t dryRun d) = (getNextPendingJob (now_select t) d \<noteq> None)"
  by (auto simp: processNextJob_def split: option.splits prod.splits)

lemma processNextJob_False:
  "processNextJob t dryRun d = (False, d1, a) \<Longrightarrow>
     getNextPendingJob (now_select t) d = None \<and> d1 = d \<and> a = []"
  by (auto simp: processNextJob_def split: option.splits prod.splits)

lemma processNextJob_True:
  "processNextJob t dryRun d = (True, d1, a) \<Longrightarrow>
     getNextPendingJob (now_select t) d \<noteq> None \<and> length a = 1"
  by (auto simp: processNextJob_def split: option.splits prod.splits)

text \<open>What a visit does to the store: nothing, or one update by the id of the selected job.\<close>

lemma processNextJob_update:
  "fst (snd (processNextJob t dryRun d)) = d \<or>
   (\<exists>job f. getNextPendingJob (now_select t) d = Some job \<and>
      fst (snd (processNextJob t dryRun d)) = update_where_id (job_id job) f d \<and>
      (\<forall>j. job_id (f j) = job_id j) \<and>
      (\<forall>j. nRetries (f j) = nRetries j \<or> nRetries (f j) \<le> MAX_RETRIES))"
proof (cases "getNextPendingJob (now_select t) d")
  case None
  then show ?thesis by (simp add: processNextJob_def)
next
  case (Some job)
  obtain r calls where rj: "run_job t job = (r, calls)" by (cases "run_job t job") auto
  show ?thesis
  proof (cases dryRun)
    case True
    with Some rj show ?thesis
      by (cases r) (simp_all add: processNextJob_def markJobSynced_def markJobBlocked_def scheduleRetry_def)
  next
    case False
    show ?thesis
    proof (cases r)
      case None
      have "fst (snd (processNextJob t dryRun d))
              = update_where_id (job_id job) (\<lambda>j. j\<lparr>status := SYNCED, lastError := None\<rparr>) d"
        using Some rj None False by (simp add: processNextJob_def markJobSynced_def)
      with Some show ?thesis by (intro disjI2 exI conjI) (assumption, assumption, simp_all)
    next
      case (Some msg)
      note msg = Some
      show ?thesis
      proof (cases "nRetries job \<ge> MAX_RETRIES")
        case True
        have "fst (snd (processNextJob t dryRun d))
              = update_where_id (job_id job) (\<lambda>j. j\<lparr>status := BLOCKED, lastError := Some msg\<rparr>) d"
          using \<open>getNextPendingJob (now_select t) d = Some job\<close> rj msg False True
          by (simp add: processNextJob_def markJobBlocked_def)
        with \<open>getNextPendingJob (now_select t) d = Some job\<close> show ?thesis
          by (intro disjI2 exI conjI) (assumption, assumption, simp_all)
      next
        case nb: False
        have "fst (snd (processNextJob t dryRun d))
              = update_where_id (job_id job)
                  (\<lambda>j. j\<lparr>nRetries := nRetries job + 1,
                     retryAt := timestamp_column
                       (new_Date (real_of_int (now_retry t) + retry_delay (random t) (nRetries job))),
                     lastError := Some msg\<rparr>) d"
          using \<open>getNextPendingJob (now_select t) d = Some job\<close> rj msg False nb
          by (simp add: processNextJob_def scheduleRetry_def)
        with \<open>getNextPendingJob (now_select t) d = Some job\<close> nb show ?thesis
          by (intro disjI2 exI conjI) (assumption, assumption, simp_all)
      qed
    qed
  qed
qed

subsection \<open>The invariant of the store\<close>

lemma store_inv_empty: "store_inv empty_db"
  by (simp add: store_inv_def empty_db_def)

lemma store_inv_enqueueJob: "store_inv d \<Longrightarrow> store_inv (enqueueJob params dryRun now d)"
  by (auto simp: store_inv_def enqueueJob_def less_Suc_eq)

lemma map_job_id_update:
  "(\<forall>j. job_id (f j) = job_id j) \<Longrightarrow>
     map job_id (map (\<lambda>j. if job_id j = i then f j else j) js) = map job_id js"
  by (induction js) auto

lemma store_inv_update_where_id:
  assumes "store_inv d" "\<forall>j. job_id (f j) = job_id j"
    "\<forall>j. nRetries (f j) = nRetries j \<or> nRetries (f j) \<le> MAX_RETRIES"
  shows "store_inv (update_where_id i f d)"
proof -
  have ids: "map job_id (syncJobs (update_where_id i f d)) = map job_id (syncJobs d)"
    using assms(2) by (simp add: syncJobs_update_where_id map_job_id_update)
  have "job_id j < next_id d \<and> nRetries j \<le> MAX_RETRIES"
    if "j \<in> set (syncJobs (update_where_id i f d))" for j
  proof -
    from that obtain j0 where j0: "j0 \<in> set (syncJobs d)" and j: "j = f j0 \<or> j = j0"
      by (auto simp: syncJobs_update_where_id split: if_splits)
    from assms(1) j0 have b: "job_id j0 < next_id d" "nRetries j0 \<le> MAX_RETRIES"
      by (auto simp: store_inv_def)
    from j show ?thesis
    proof
      assume "j = f j0"
      with b assms(2) assms(3) show ?thesis by (metis)
    next
      assume "j = j0"
      with b show ?thesis by simp
    qed
  qed
  with ids assms(1) show ?thesis
    by (simp add: store_inv_def next_id_update_where_id)
qed

lemma store_inv_processNextJob:
  "store_inv d \<Longrightarrow> store_inv (fst (snd (processNextJob t dryRun d)))"
  using processNextJob_update [of t dryRun d] store_inv_update_where_id by auto

lemma store_inv_apply_op: "store_inv d \<Longrightarrow> store_inv (apply_op d op)"
  by (cases op) (simp_all add: store_inv_enqueueJob store_inv_processNextJob)

lemma store_inv_foldl: "store_inv d \<Longrightarrow> store_inv (foldl apply_op d ops)"
  by (induction ops arbitrary: d) (simp_all add: store_inv_apply_op)

lemma store_inv_run_ops: "store_inv (run_ops ops empty_db)"
  by (simp add: run_ops_def store_inv_foldl store_inv_empty)

text \<open>A row that is not PENDING survives every operation unchanged.\<close>

lemma settled_row_update:
  assumes "store_inv d" "r \<in> set (syncJobs d)" "status r \<noteq> PENDING"
    "getNextPendingJob now d = Some job"
  shows "r \<in> set (syncJobs (update_where_id (job_id job) f d))" "job_id job \<noteq> job_id r"
proof -
  from assms(4) have job: "job \<in> set (syncJobs d)" "status job = PENDING"
    using getNextPendingJob_Some by blast+
  with assms(3) have "job \<noteq> r" by auto
  with job(1) assms(1,2) show ne: "job_id job \<noteq> job_id r"
    by (auto simp: store_inv_def distinct_map inj_on_def)
  with assms(2) show "r \<in> set (syncJobs (update_where_id (job_id job) f d))"
    by (force simp: syncJobs_update_where_id)
qed

lemma settled_row_processNextJob:
  assumes "store_inv d" "r \<in> set (syncJobs d)" "status r \<noteq> PENDING"
  shows "r \<in> set (syncJobs (fst (snd (processNextJob t dryRun d))))"
  using processNextJob_update [of t dryRun d] settled_row_update(1) [OF assms] assms(2) by auto

lemma settled_row_apply_op:
  assumes "store_inv d" "r \<in> set (syncJobs d)" "status r \<noteq> PENDING"
  shows "r \<in> set (syncJobs (apply_op d op))"
proof (cases op)
  case (Enqueue params dryRun now)
  with assms(2) show ?thesis by (simp add: enqueueJob_def)
next
  case (Process t dryRun)
  with settled_row_processNextJob [OF assms] show ?thesis by simp
qed

lemma settled_row_foldl:
  "store_inv d \<Longrightarrow> r \<in> set (syncJobs d) \<Longrightarrow> status r \<noteq> PENDING \<Longrightarrow>
     r \<in> set (syncJobs (foldl apply_op d ops))"
  by (induction ops arbitrary: d) (simp_all add: settled_row_apply_op store_inv_apply_op)

lemma settled_row_not_visited:
  assumes "store_inv d" "r \<in> set (syncJobs d)" "status r \<noteq> PENDING"
    "a \<in> set (snd (snd (processNextJob t dryRun d)))"
  shows "att_job a \<noteq> job_id r"
proof (cases "getNextPendingJob (now_select t) d")
  case None
  with assms(4) show ?thesis by (simp add: processNextJob_def)
next
  case (Some job)
  from settled_row_update(2) [OF assms(1,2,3) Some] have "job_id job \<noteq> job_id r" .
  moreover from assms(4) Some have "att_job a = job_id job"
    by (auto simp: processNextJob_def split: prod.splits option.splits)
  ultimately show ?thesis by simp
qed

subsection \<open>The retry schedule and the executor loop\<close>

lemmas retry_defs = retry_delay_def retry_jitter_def retry_baseDelay_def
  BASE_RETRY_DELAY_MS_def MAX_RETRY_DELAY_MS_def new_Date_def timestamp_column_def

lemmas exec_defs = processNextJob_def getNextPendingJob_def orderBy_retryAt_limit1_def ready_def
  enqueueJob_def update_a_def empty_db_def failing_tick_def succeeding_tick_def run_job_def
  Error_message_def MAX_RETRIES_def scheduleRetry_def markJobSynced_def markJobBlocked_def
  update_where_id_def timestamp_column_def



lemma timestamp_column_whole: "timestamp_column ms mod 1000 = 0"
  by (simp add: timestamp_column_def)

lemma timestamp_column_bounds: "timestamp_column ms \<le> ms" "ms < timestamp_column ms + 1000"
  unfolding timestamp_column_def by presburger+



lemma whole_second_le:
  fixes r now :: int
  assumes "r mod 1000 = 0"
  shows "(r \<le> now) = (r div 1000 \<le> now div 1000)"
proof
  assume "r \<le> now"
  then show "r div 1000 \<le> now div 1000" by (simp add: zdiv_mono1)
next
  assume a: "r div 1000 \<le> now div 1000"
  have "r = timestamp_column r"
    using assms div_mult_mod_eq [of r 1000] by (simp add: timestamp_column_def)
  also have "\<dots> \<le> timestamp_column now"
    using a by (simp add: timestamp_column_def)
  also have "\<dots> \<le> now" by (rule timestamp_column_bounds(1))
  finally show "r \<le> now" .
qed




lemma whole_seconds_empty: "whole_seconds empty_db"
  by (simp add: whole_seconds_def empty_db_def)

lemma whole_seconds_enqueueJob:
  "whole_seconds d \<Longrightarrow> whole_seconds (enqueueJob params dryRun now d)"
  by (simp add: whole_seconds_def enqueueJob_def timestamp_column_whole)

lemma whole_seconds_update_where_id:
  assumes "whole_seconds d"
    and "\<And>j. retryAt j mod 1000 = 0 \<and> createdAt j mod 1000 = 0 \<Longrightarrow>
               retryAt (f j) mod 1000 = 0 \<and> createdAt (f j) mod 1000 = 0"
  shows "whole_seconds (update_where_id i f d)"
  using assms by (auto simp: whole_seconds_def update_where_id_def list_all_iff)

lemma whole_seconds_processNextJob:
  assumes "whole_seconds d"
  shows "whole_seconds (fst (snd (processNextJob t dryRun d)))"
proof (cases "getNextPendingJob (now_select t) d")
  case None
  with assms show ?thesis by (simp add: processNextJob_def)
next
  case (Some job)
  obtain r calls where rj: "run_job t job = (r, calls)" by (cases "run_job t job")
  show ?thesis
  proof (cases r)
    case None
    with Some rj assms show ?thesis
      by (simp add: processNextJob_def markJobSynced_def whole_seconds_update_where_id)
  next
    case (Some msg)
    with \<open>getNextPendingJob (now_select t) d = Some job\<close> rj assms show ?thesis
      by (simp add: processNextJob_def markJobBlocked_def scheduleRetry_def
          whole_seconds_update_where_id timestamp_column_whole)
  qed
qed

lemma whole_seconds_apply_op: "whole_seconds d \<Longrightarrow> whole_seconds (apply_op d op)"
  by (cases op) (simp_all add: whole_seconds_enqueueJob whole_seconds_processNextJob)

lemma whole_seconds_foldl: "whole_seconds d \<Longrightarrow> whole_seconds (foldl apply_op d ops)"
  by (induction ops arbitrary: d) (simp_all add: whole_seconds_apply_op)

lemma whole_seconds_run_ops: "whole_seconds (run_ops ops empty_db)"
  by (simp add: run_ops_def whole_seconds_foldl whole_seconds_empty)

lemma processAllPendingJobs_loop_sound:
  assumes "processAllPendingJobs_loop env dryRun count visits d = Some r"
  shows "count \<le> fst r \<and> length (snd (snd r)) = length visits + (fst r - count) \<and>
           getNextPendingJob (now_select (env (fst r))) (fst (snd r)) = None"
proof (rule processAllPendingJobs_loop.raw_induct
    [where P = "\<lambda>env dryRun count visits d r. count \<le> fst r \<and>
            length (snd (snd r)) = length visits + (fst r - count) \<and>
           getNextPendingJob (now_select (env (fst r))) (fst (snd r)) = None", OF _ assms])
  fix loop :: "(nat \<Rightarrow> tick) \<Rightarrow> bool \<Rightarrow> nat \<Rightarrow> attempt list \<Rightarrow> db \<Rightarrow> (nat \<times> db \<times> attempt list) option"
    and env :: "nat \<Rightarrow> tick" and dryRun count and visits :: "attempt list" and d r
  assume IH: "\<And>env dryRun count visits d r. loop env dryRun count visits d = Some r \<Longrightarrow>
     count \<le> fst r \<and> length (snd (snd r)) = length visits + (fst r - count) \<and>
           getNextPendingJob (now_select (env (fst r))) (fst (snd r)) = None"
  assume body: "(case processNextJob (env count) dryRun d of
      (processed, d', a) \<Rightarrow>
        if processed then loop env dryRun (Suc count) (visits @ a) d'
        else Some (count, d', visits)) = Some r"
  obtain b d1 a where p: "processNextJob (env count) dryRun d = (b, d1, a)"
    by (cases "processNextJob (env count) dryRun d") auto
  show "count \<le> fst r \<and> length (snd (snd r)) = length visits + (fst r - count) \<and>
           getNextPendingJob (now_select (env (fst r))) (fst (snd r)) = None"
  proof (cases b)
    case True
    have la: "length a = 1"
      using p True processNextJob_True [of "env count" dryRun d d1 a] by simp
    from body p True have "loop env dryRun (Suc count) (visits @ a) d1 = Some r" by simp
    from IH [OF this] la show ?thesis by auto
  next
    case False
    have "getNextPendingJob (now_select (env count)) d = None \<and> d1 = d"
      using p False processNextJob_False [of "env count" dryRun d d1 a] by simp
    with body p False show ?thesis by auto
  qed
qed

lemma processAllPendingJobs_sound:
  assumes "processAllPendingJobs env dryRun d = Some (n, d', visits)"
  shows "length visits = n" "getNextPendingJob (now_select (env n)) d' = None"
  using processAllPendingJobs_loop_sound [of env dryRun 0 "[]" d "(n, d', visits)"] assms
  by (simp_all add: processAllPendingJobs_def)

lemma ten_failures_run:
  "syncJobs (run_ops ten_failures empty_db) =
     [\<lparr>eventType = UPDATE, localPath = ''/w/a.txt'', remotePath = ''w/a.txt'', job_id = 1,
       status = PENDING, retryAt = 10300000, nRetries = 10,
       lastError = Some ''NetworkTransient'', createdAt = 0\<rparr>]"
  by (simp add: run_ops_def ten_failures_def failing_at_def upt_rec exec_defs retry_defs)

lemma eleven_failures_run:
  "syncJobs (run_ops eleven_failures empty_db) =
     [\<lparr>eventType = UPDATE, localPath = ''/w/a.txt'', remotePath = ''w/a.txt'', job_id = 1,
       status = BLOCKED, retryAt = 10300000, nRetries = 10,
       lastError = Some ''NetworkTransient'', createdAt = 0\<rparr>]"
  by (simp add: run_ops_def eleven_failures_def ten_failures_def failing_at_def upt_rec
      exec_defs retry_defs)

lemma always_failing_run:
  "processAllPendingJobs always_failing False (enqueueJob update_a False 5250 empty_db) =
     Some (1, retried_once,
           [\<lparr>att_job = 1, att_calls = [], att_error = Some ''NetworkTransient''\<rparr>])"
  apply (simp add: processAllPendingJobs_def)
  apply (subst processAllPendingJobs_loop.simps)
  apply (simp add: always_failing_def exec_defs retry_defs)
  apply (subst processAllPendingJobs_loop.simps)
  apply (simp add: always_failing_def exec_defs retry_defs retried_once_def)
  done

lemma map_status_scheduleRetry:
  "map status (syncJobs (scheduleRetry jobId k err dryRun now rnd d)) = map status (syncJobs d)"
  by (simp add: scheduleRetry_def update_where_id_def comp_def if_distrib cong: if_cong)

lemma markJobBlocked_rows: "\<forall>r \<in> set (syncJobs (markJobBlocked i msg False d)).
         job_id r = i \<longrightarrow> status r = BLOCKED \<and> lastError r = Some msg"
proof (intro ballI impI)
  fix r assume r: "r \<in> set (syncJobs (markJobBlocked i msg False d))" and i: "job_id r = i"
  from r obtain j where j: "j \<in> set (syncJobs d)"
    "r = (if job_id j = i then j\<lparr>status := BLOCKED, lastError := Some msg\<rparr> else j)"
    by (auto simp: markJobBlocked_def syncJobs_update_where_id)
  show "status r = BLOCKED \<and> lastError r = Some msg"
  proof (cases "job_id j = i")
    case True
    with j(2) show ?thesis by simp
  next
    case False
    with j(2) have "r = j" by simp
    with False i show ?thesis by simp
  qed
qed

lemma markJobSynced_rows: "\<forall>r \<in> set (syncJobs (markJobSynced i False d)).
         job_id r = i \<longrightarrow> status r = SYNCED \<and> lastError r = None"
proof (intro ballI impI)
  fix r assume r: "r \<in> set (syncJobs (markJobSynced i False d))" and i: "job_id r = i"
  from r obtain j where j: "j \<in> set (syncJobs d)"
    "r = (if job_id j = i then j\<lparr>status := SYNCED, lastError := None\<rparr> else j)"
    by (auto simp: markJobSynced_def syncJobs_update_where_id)
  show "status r = SYNCED \<and> lastError r = None"
  proof (cases "job_id j = i")
    case True
    with j(2) show ?thesis by simp
  next
    case False
    with j(2) have "r = j" by simp
    with False i show ?thesis by simp
  qed
qed

lemma retries_bounded_run_ops:
  "\<forall>r \<in> set (syncJobs (run_ops ops empty_db)). nRetries r \<le> MAX_RETRIES"
  using store_inv_run_ops [of ops] by (simp add: store_inv_def)

subsection \<open>Walking the remote tree\<close>

lemma findNodeByName_loop_acc: "findNodeByName_loop name (Some x) nodes = Some x"
  by (induction nodes) (auto split: option.splits)

lemma findNodeByName_loop_found:
  "findNodeByName_loop name None nodes = Some (u, ty) \<Longrightarrow>
     \<exists>node \<in> set nodes. \<exists>v. nr_value node = Some v \<and> nr_ok node \<and> nd_name v = name \<and>
        nd_uid v = u \<and> nd_type v = ty"
proof (induction nodes)
  case Nil
  then show ?case by simp
next
  case (Cons node nodes)
  show ?case
  proof (cases "\<exists>v. nr_value node = Some v \<and> nr_ok node \<and> nd_name v = name")
    case True
    then obtain v where v: "nr_value node = Some v" "nr_ok node" "nd_name v = name" by blast
    with Cons.prems have "Some (nd_uid v, nd_type v) = Some (u, ty)"
      by (simp add: findNodeByName_loop_acc)
    with v show ?thesis by auto
  next
    case False
    with Cons.prems have "findNodeByName_loop name None nodes = Some (u, ty)"
      by (auto split: option.splits if_splits)
    from Cons.IH [OF this] show ?thesis by auto
  qed
qed

lemma findNodeByName_Some:
  "findNodeByName c folderUid name = Some (u, ty) \<Longrightarrow>
     \<exists>v \<in> set (children_named c folderUid name). nd_uid v = u \<and> nd_type v = ty"
  unfolding findNodeByName_def children_named_def
  by (drule findNodeByName_loop_found) (force simp: List.map_filter_def image_iff)

lemma traverseRemotePath_calls:
  "traverseRemotePath c cur parts = (r, calls) \<Longrightarrow> \<forall>x \<in> set calls. \<not> is_removal x"
proof (induction parts arbitrary: cur r calls)
  case Nil
  then show ?case by simp
next
  case (Cons p ps)
  show ?case
  proof (cases "findNodeByName c cur p")
    case None
    with Cons.prems show ?thesis by auto
  next
    case (Some node)
    obtain uid ty where node: "node = (uid, ty)" by (cases node)
    show ?thesis
    proof (cases "ty = ''folder''")
      case False
      with Some node Cons.prems show ?thesis by auto
    next
      case True
      obtain r' calls' where rec: "traverseRemotePath c uid ps = (r', calls')"
        by (cases "traverseRemotePath c uid ps")
      with Some node True Cons.prems
      have "calls = IterateFolderChildren cur # calls'" by auto
      with Cons.IH [OF rec] show ?thesis by simp
    qed
  qed
qed

lemma traverseRemotePath_Some:
  "traverseRemotePath c cur parts = (Some u, calls) \<Longrightarrow> u \<in> set (folders_at c cur parts)"
proof (induction parts arbitrary: cur calls)
  case Nil
  then show ?case by simp
next
  case (Cons p ps)
  from Cons.prems obtain uid ty where node: "findNodeByName c cur p = Some (uid, ty)"
    by (cases "findNodeByName c cur p") auto
  with Cons.prems have ty: "ty = ''folder''" by (auto split: if_splits)
  obtain r' calls' where rec: "traverseRemotePath c uid ps = (r', calls')"
    by (cases "traverseRemotePath c uid ps")
  with node ty Cons.prems have "r' = Some u" by auto
  with rec Cons.IH have "u \<in> set (folders_at c uid ps)" by blast
  moreover from findNodeByName_Some [OF node] ty
  obtain v where "v \<in> set (children_named c cur p)" "nd_uid v = uid" "nd_type v = ''folder''"
    by auto
  ultimately show ?case by auto
qed

lemma deleteNode_absent:
  assumes root: "rf_ok (getMyFilesRootFolder c)" "rf_value (getMyFilesRootFolder c) = Some rootUid"
    and absent: "\<not> remote_node_exists c rootUid (fst (parsePath path)) (snd (parsePath path))"
  shows "\<exists>calls. deleteNode c path permanent = (Inr not_existed, calls) \<and>
           (\<forall>x \<in> set calls. \<not> is_removal x)"
proof -
  obtain parts name where pp: "parsePath path = (parts, name)" by (cases "parsePath path")
  from absent pp have ab: "\<not> remote_node_exists c rootUid parts name" by simp
  show ?thesis
  proof (cases "parts = []")
    case True
    from ab True have "children_named c rootUid name = []"
      by (simp add: remote_node_exists_def)
    then have "findNodeByName c rootUid name = None"
      using findNodeByName_Some [of c rootUid name] by (cases "findNodeByName c rootUid name") auto
    with root pp True show ?thesis
      by (simp add: deleteNode_def not_existed_def)
  next
    case False
    obtain r calls where tr: "traverseRemotePath c rootUid parts = (r, calls)"
      by (cases "traverseRemotePath c rootUid parts")
    note nc = traverseRemotePath_calls [OF tr]
    show ?thesis
    proof (cases "truthy r")
      case f: False
      with root pp False tr nc show ?thesis
        by (simp add: deleteNode_def not_existed_def)
    next
      case True
      then obtain u where u: "r = Some u" by (cases r) (auto simp: truthy_def)
      from traverseRemotePath_Some tr u have "u \<in> set (folders_at c rootUid parts)" by blast
      with ab have "children_named c u name = []"
        by (auto simp: remote_node_exists_def)
      then have "findNodeByName c u name = None"
        using findNodeByName_Some [of c u name] by (cases "findNodeByName c u name") auto
      with root pp False tr nc True u show ?thesis
        by (simp add: deleteNode_def not_existed_def)
    qed
  qed
qed

subsection \<open>Evaluating paths and the example drive\<close>

lemmas path_defs = parsePath_def startsWith_def endsWith_slash_def basename_def dirname_def

lemma map_nRetries_markJobSynced:
  "map nRetries (syncJobs (markJobSynced i dryRun d)) = map nRetries (syncJobs d)"
  by (simp add: markJobSynced_def update_where_id_def comp_def if_distrib cong: if_cong)

lemma delete_a_selected:
  "getNextPendingJob (now_select (succeeding_tick 5250)) (enqueueJob delete_a False 5250 empty_db)
     = Some \<lparr>eventType = DELETE, localPath = ''/w/a.txt'', remotePath = ''w/a.txt'',
             job_id = 1, status = PENDING, retryAt = 5000, nRetries = 0, lastError = None,
             createdAt = 5000\<rparr>"
  by (simp add: getNextPendingJob_def orderBy_retryAt_limit1_def ready_def enqueueJob_def
      delete_a_def empty_db_def succeeding_tick_def timestamp_column_def)

lemma parsePath_w_a: "parsePath ''w/a.txt'' = ([''w''], ''a.txt'')"
  by (simp add: path_defs)

lemma delete_a_absent: "\<not> remote_node_exists empty_drive ''root'' [''w''] ''a.txt''"
  by (simp add: remote_node_exists_def children_named_def empty_drive_def)

subsection \<open>The change buffer and the one-shot query\<close>

lemma eventType_job_of_change:
  "eventType (job_of_change rr path change) =
     (if \<not> fc_exists change then DELETE else if fc_type change = ''d'' then CREATE else UPDATE)"
  "localPath (job_of_change rr path change) = fc_watchRoot change @ ''/'' @ path"
  by (simp_all add: job_of_change_def Let_def)

lemma enqueue_changes_rows:
  "map (\<lambda>j. (eventType j, localPath j, remotePath j, status j))
       (syncJobs (enqueue_changes rr False clock i changes d))
   = map (\<lambda>j. (eventType j, localPath j, remotePath j, status j)) (syncJobs d)
     @ map (\<lambda>(path, change).
              (eventType (job_of_change rr path change),
               localPath (job_of_change rr path change),
               remotePath (job_of_change rr path change), PENDING)) changes"
proof (induction changes arbitrary: i d)
  case Nil
  then show ?case by simp
next
  case (Cons pc changes)
  obtain path change where pc: "pc = (path, change)" by (cases pc)
  show ?case
    unfolding pc enqueue_changes.simps Cons.IH
    by (simp add: enqueueJob_def)
qed

lemma SyncEventType_text_not_MOVE: "SyncEventType_text e \<noteq> ''MOVE''"
  by (cases e) simp_all

lemma rename_batch_enqueued:
  "enqueue_changes [] False steady_clock 0 rename_batch empty_db =
     \<lparr>syncJobs =
        [\<lparr>eventType = DELETE, localPath = ''/w/old.txt'', remotePath = ''w/old.txt'',
          job_id = 1, status = PENDING, retryAt = 5000, nRetries = 0, lastError = None,
          createdAt = 5000\<rparr>,
         \<lparr>eventType = UPDATE, localPath = ''/w/new.txt'', remotePath = ''w/new.txt'',
          job_id = 2, status = PENDING, retryAt = 5000, nRetries = 0, lastError = None,
          createdAt = 5000\<rparr>],
      next_id = 3\<rparr>"
  by (simp add: rename_batch_def removed_old_def added_new_def job_of_change_def basename_def
      enqueueJob_def empty_db_def steady_clock_def timestamp_column_def)

lemma parsePath_w_old: "parsePath ''w/old.txt'' = ([''w''], ''old.txt'')"
  by (simp add: path_defs)

lemma rename_batch_processed:
  "processAllPendingJobs always_succeeding False
     (enqueue_changes [] False steady_clock 0 rename_batch empty_db)
   = Some (2, renamed_db,
       [\<lparr>att_job = 1, att_calls = [GetMyFilesRootFolder, IterateFolderChildren ''root''],
         att_error = None\<rparr>,
        \<lparr>att_job = 2, att_calls = [], att_error = None\<rparr>])"
  unfolding rename_batch_enqueued processAllPendingJobs_def
  apply (subst processAllPendingJobs_loop.simps)
  apply (simp add: always_succeeding_def succeeding_tick_def processNextJob_def
      getNextPendingJob_def orderBy_retryAt_limit1_def ready_def run_job_def deleteNode_def
      parsePath_w_old empty_drive_def findNodeByName_def truthy_def markJobSynced_def
      update_where_id_def)
  apply (subst processAllPendingJobs_loop.simps)
  apply (simp add: always_succeeding_def succeeding_tick_def processNextJob_def
      getNextPendingJob_def orderBy_retryAt_limit1_def ready_def run_job_def
      markJobSynced_def update_where_id_def)
  apply (subst processAllPendingJobs_loop.simps)
  apply (simp add: always_succeeding_def succeeding_tick_def processNextJob_def
      getNextPendingJob_def orderBy_retryAt_limit1_def ready_def renamed_db_def)
  done

lemma jobs_db_queueChange: "jobs_db (queueChange file schedule m) = jobs_db m"
  by (simp add: queueChange_def)

lemma jobs_db_foldl_queueChange:
  "jobs_db (foldl (\<lambda>m' file. queueChange (f file) False m') m files) = jobs_db m"
  by (induction files arbitrary: m) (simp_all add: jobs_db_queueChange)

lemma jobs_db_oneShot_dir: "jobs_db (oneShot_dir rp qw m dir) = jobs_db m"
  by (simp add: oneShot_dir_def Let_def jobs_db_foldl_queueChange setClock_def)

lemma jobs_db_query_all: "jobs_db (query_all rp qw dirs m) = jobs_db m"
  unfolding query_all_def
  by (induction dirs arbitrary: m) (simp_all add: jobs_db_oneShot_dir)

subsection \<open>Rows are never merged\<close>

lemma rows_for_map: "rows_for p d = length (filter (\<lambda>x. x = p) (map localPath (syncJobs d)))"
  by (simp add: rows_for_def filter_map comp_def)

lemma map_localPath_update_where_id:
  "(\<forall>j. localPath (f j) = localPath j) \<Longrightarrow>
     map localPath (syncJobs (update_where_id i f d)) = map localPath (syncJobs d)"
  by (simp add: update_where_id_def comp_def if_distrib cong: if_cong)

lemma map_localPath_processNextJob:
  "map localPath (syncJobs (fst (snd (processNextJob t dryRun d)))) = map localPath (syncJobs d)"
proof (cases "getNextPendingJob (now_select t) d")
  case None
  then show ?thesis by (simp add: processNextJob_def)
next
  case (Some job)
  obtain r calls where rj: "run_job t job = (r, calls)" by (cases "run_job t job")
  show ?thesis
  proof (cases r)
    case None
    with Some rj show ?thesis
      by (simp add: processNextJob_def markJobSynced_def map_localPath_update_where_id)
  next
    case (Some msg)
    with \<open>getNextPendingJob (now_select t) d = Some job\<close> rj show ?thesis
      by (simp add: processNextJob_def markJobBlocked_def scheduleRetry_def
          map_localPath_update_where_id)
  qed
qed

lemma rows_for_apply_op:
  "rows_for p (apply_op d op) = rows_for p d + (if enqueues_path p op then 1 else 0)"
proof (cases op)
  case (Enqueue params dryRun now)
  then show ?thesis by (simp add: rows_for_def enqueueJob_def)
next
  case (Process t dryRun)
  then show ?thesis by (simp add: rows_for_map map_localPath_processNextJob)
qed

lemma rows_for_foldl:
  "rows_for p (foldl apply_op d ops) = rows_for p d + length (filter (enqueues_path p) ops)"
  by (induction ops arbitrary: d) (simp_all add: rows_for_apply_op)

lemma rows_for_run_ops:
  "rows_for p (run_ops ops empty_db) = length (filter (enqueues_path p) ops)"
  by (simp add: run_ops_def rows_for_foldl) (simp add: rows_for_def empty_db_def)

section \<open>Claims\<close>

text \<open>
  C1 (as stated, refuted): "at most one row per local path is PENDING; enqueueing the
  same (local_path, UPDATE) twice results in exactly one PENDING row". \<^verbatim>\<open>enqueueJob\<close>
  inserts without looking at the table: two calls for one path on the empty store leave
  two PENDING rows for it.
\<close>

theorem C1_enqueue_twice_counterexample:
  "pending_for ''/w/a.txt'' (enqueueJob update_a False 7400 (enqueueJob update_a False 5250 empty_db)) = 2"
  by (simp add: pending_for_def enqueueJob_def update_a_def empty_db_def)

text \<open>
  C1 (amended): every call of \<^verbatim>\<open>enqueueJob\<close> outside a dry run appends exactly one new
  PENDING row (\<^verbatim>\<open>retry_at\<close> and \<^verbatim>\<open>created_at\<close> are now cut to a whole second, as the
  columns keep it; \<^verbatim>\<open>n_retries\<close> = 0, no error) and leaves every existing row as it
  is, so the number of PENDING rows of its path grows by one; in a dry run the store is
  unchanged. In every store reached from the empty store by enqueue and executor
  operations, a local path has exactly as many rows as there were such calls for it:
  rows are never merged or replaced.
\<close>

theorem C1_enqueue_appends:
  "syncJobs (enqueueJob params False now d) =
     syncJobs d @ [\<lparr>eventType = eventType params, localPath = localPath params,
                     remotePath = remotePath params, job_id = next_id d, status = PENDING,
                     retryAt = (now div 1000) * 1000, nRetries = 0, lastError = None,
                     createdAt = (now div 1000) * 1000\<rparr>]
   \<and> pending_for (localPath params) (enqueueJob params False now d)
       = Suc (pending_for (localPath params) d)
   \<and> enqueueJob params True now d = d
   \<and> rows_for p (run_ops ops empty_db) = length (filter (enqueues_path p) ops)"
  by (simp add: pending_for_def enqueueJob_def rows_for_run_ops timestamp_column_def)

text \<open>
  C2 (as stated, refuted): "after a successful claim the returned row's stored status is
  PROCESSING". The selection returns the only row of the store below, and that row is
  still stored as PENDING; no status of the schema has the text PROCESSING.
\<close>

theorem C2_select_counterexample:
  "getNextPendingJob 9000 (enqueueJob update_a False 5250 empty_db)
     = Some \<lparr>eventType = UPDATE, localPath = ''/w/a.txt'', remotePath = ''w/a.txt'',
             job_id = 1, status = PENDING, retryAt = 5000, nRetries = 0, lastError = None,
             createdAt = 5000\<rparr>
   \<and> map status (syncJobs (enqueueJob update_a False 5250 empty_db)) = [PENDING]
   \<and> SyncJobStatus_text PENDING \<noteq> ''PROCESSING''"
  by (simp add: getNextPendingJob_def orderBy_retryAt_limit1_def ready_def enqueueJob_def
      update_a_def empty_db_def timestamp_column_def)

text \<open>
  C2 (amended): \<^verbatim>\<open>getNextPendingJob\<close> is a plain selection. The row it returns is a row
  of the store as it stands, its stored status is PENDING (never a PROCESSING marker,
  which the schema does not have), its \<^verbatim>\<open>retry_at\<close> is at most now and is least among
  the ready rows.
\<close>

theorem C2_select_returns_pending_row:
  "getNextPendingJob now d = Some j \<Longrightarrow>
     j \<in> set (syncJobs d) \<and> status j = PENDING \<and>
     SyncJobStatus_text (status j) \<noteq> ''PROCESSING'' \<and> retryAt j \<le> now \<and>
     (\<forall>x \<in> set (syncJobs d). ready now x \<longrightarrow> retryAt j \<le> retryAt x)"
  by (frule getNextPendingJob_Some) simp

theorem C2_select_returns_pending_row_witness:
  "getNextPendingJob 9000 (enqueueJob update_a False 5250 empty_db) \<noteq> None
   \<and> status (the (getNextPendingJob 9000 (enqueueJob update_a False 5250 empty_db))) = PENDING
   \<and> retryAt (the (getNextPendingJob 9000 (enqueueJob update_a False 5250 empty_db))) \<le> 9000"
proof -
  obtain j where j: "getNextPendingJob 9000 (enqueueJob update_a False 5250 empty_db) = Some j"
    by (simp add: getNextPendingJob_def orderBy_retryAt_limit1_def ready_def enqueueJob_def
        update_a_def empty_db_def timestamp_column_def)
  from C2_select_returns_pending_row [OF j] j show ?thesis by simp
qed

text \<open>
  C3 (as stated, refuted): "a removed record and an added record with the same inode in
  one batch are emitted as a single MOVE job". \<^verbatim>\<open>processChanges\<close> on a batch holding
  the removal of \<^verbatim>\<open>old.txt\<close> and the addition of \<^verbatim>\<open>new.txt\<close>, both with inode 42,
  enqueues (and here syncs) two jobs, a DELETE and an UPDATE.
\<close>

theorem C3_rename_gives_delete_and_update_counterexample:
  "processChanges steady_clock always_succeeding (fresh_module\<lparr>pendingChanges := rename_batch\<rparr>)
     = Some (fresh_module\<lparr>jobs_db := renamed_db\<rparr>)
   \<and> map eventType (syncJobs renamed_db) = [DELETE, UPDATE]
   \<and> \<not> fc_exists removed_old \<and> fc_exists added_new \<and> fc_ino removed_old = fc_ino added_new"
  by (simp add: processChanges_def fresh_module_def rename_batch_processed renamed_db_def
      removed_old_def added_new_def)

text \<open>
  C3 (amended): for every batch, the loop of \<^verbatim>\<open>processChanges\<close> enqueues exactly one
  PENDING job per buffered record, in the order of the buffer, after the rows already
  stored: DELETE for a removed record, CREATE for an existing directory, UPDATE for an
  existing file, with the local path \<^verbatim>\<open>watchRoot/path\<close>. A removed record and an added
  record therefore give a separate DELETE and CREATE or UPDATE, whatever their inodes;
  no event type has the text MOVE. The store \<^verbatim>\<open>processChanges\<close> returns is the one the
  executor loop leaves from these rows.
\<close>

theorem C3_one_job_per_record:
  "map (\<lambda>j. (eventType j, localPath j, remotePath j, status j))
       (syncJobs (enqueue_changes rr False clock i changes d))
   = map (\<lambda>j. (eventType j, localPath j, remotePath j, status j)) (syncJobs d)
     @ map (\<lambda>(path, change).
              (if \<not> fc_exists change then DELETE
               else if fc_type change = ''d'' then CREATE else UPDATE,
               fc_watchRoot change @ ''/'' @ path,
               remotePath (job_of_change rr path change), PENDING)) changes
   \<and> SyncEventType_text e \<noteq> ''MOVE''
   \<and> (\<not> isProcessing m \<and> protonClient_set m \<and> processChanges clock env m = Some m' \<longrightarrow>
        (\<exists>n visits.
           processAllPendingJobs env (dryRun_opt m)
             (enqueue_changes (remoteRoot m) (dryRun_opt m) clock 0 (pendingChanges m) (jobs_db m))
           = Some (n, jobs_db m', visits)))"
proof -
  have "\<exists>n visits.
           processAllPendingJobs env (dryRun_opt m)
             (enqueue_changes (remoteRoot m) (dryRun_opt m) clock 0 (pendingChanges m) (jobs_db m))
           = Some (n, jobs_db m', visits)"
    if "\<not> isProcessing m \<and> protonClient_set m \<and> processChanges clock env m = Some m'"
    using that by (auto simp: processChanges_def Let_def split: option.splits)
  then show ?thesis
    by (simp add: enqueue_changes_rows eventType_job_of_change SyncEventType_text_not_MOVE)
qed

theorem C3_one_job_per_record_witness:
  "map eventType (syncJobs (enqueue_changes [] False steady_clock 0 rename_batch empty_db))
     = [DELETE, UPDATE]
   \<and> map localPath (syncJobs (enqueue_changes [] False steady_clock 0 rename_batch empty_db))
     = [''/w/old.txt'', ''/w/new.txt'']
   \<and> processAllPendingJobs always_succeeding False
        (enqueue_changes [] False steady_clock 0 rename_batch empty_db) \<noteq> None"
proof -
  let ?m = "(fresh_module :: unit FileChange_ino_ext sync_module)\<lparr>pendingChanges := rename_batch\<rparr>"
  have pc: "processChanges steady_clock always_succeeding ?m = Some (fresh_module\<lparr>jobs_db := renamed_db\<rparr>)"
    by (simp add: processChanges_def fresh_module_def rename_batch_processed)
  note c3 = C3_one_job_per_record [of "[]" steady_clock 0 rename_batch empty_db undefined ?m always_succeeding
      "fresh_module\<lparr>jobs_db := renamed_db\<rparr>"]
  from c3 have rows: "map (\<lambda>j. (eventType j, localPath j, remotePath j, status j))
       (syncJobs (enqueue_changes [] False steady_clock 0 rename_batch empty_db))
     = [(DELETE, ''/w/old.txt'', ''w/old.txt'', PENDING),
        (UPDATE, ''/w/new.txt'', ''w/new.txt'', PENDING)]"
    by (simp add: rename_batch_def removed_old_def added_new_def job_of_change_def
        basename_def empty_db_def)
  have 1: "map eventType (syncJobs (enqueue_changes [] False steady_clock 0 rename_batch empty_db))
     = [DELETE, UPDATE]"
    using arg_cong [OF rows, of "map fst"] by (simp add: comp_def)
  have 2: "map localPath (syncJobs (enqueue_changes [] False steady_clock 0 rename_batch empty_db))
     = [''/w/old.txt'', ''/w/new.txt'']"
    using arg_cong [OF rows, of "map (\<lambda>x. fst (snd x))"] by (simp add: comp_def)
  from c3 pc have "\<exists>n visits.
           processAllPendingJobs always_succeeding (dryRun_opt ?m)
             (enqueue_changes (remoteRoot ?m) (dryRun_opt ?m) steady_clock 0 (pendingChanges ?m) (jobs_db ?m))
           = Some (n, jobs_db (fresh_module\<lparr>jobs_db := renamed_db\<rparr> :: unit FileChange_ino_ext sync_module), visits)"
    by (simp add: fresh_module_def)
  then have 3: "processAllPendingJobs always_succeeding False
        (enqueue_changes [] False steady_clock 0 rename_batch empty_db) \<noteq> None"
    by (auto simp: fresh_module_def)
  from 1 2 3 show ?thesis by simp
qed

text \<open>
  C4 (as stated, refuted): "when processAllPendingJobs returns, pending + processing = 0,
  even when some jobs failed and were scheduled for retry". One job, enqueued and
  selected at 5250 ms, whose upload fails: the loop visits it once, schedules the retry
  for the second 6000 and returns, and the row is still PENDING.
\<close>

theorem C4_failed_job_stays_pending_counterexample:
  "processAllPendingJobs always_failing False (enqueueJob update_a False 5250 empty_db) =
     Some (1, retried_once,
           [\<lparr>att_job = 1, att_calls = [], att_error = Some ''NetworkTransient''\<rparr>])
   \<and> getJobCounts retried_once = (1, 0, 0)"
  using always_failing_run by (simp add: getJobCounts_def count_status_def retried_once_def)

text \<open>
  C4 (amended): when \<^verbatim>\<open>processAllPendingJobs\<close> returns after \<open>n\<close> visits, no row of the
  store it leaves is PENDING with \<^verbatim>\<open>retry_at\<close> at or before the clock of its last
  selection (for a row whose \<^verbatim>\<open>retry_at\<close> is a whole second, as the column keeps it: at
  or before the second of that clock), and no row is PROCESSING (the status does not
  exist). Rows that are PENDING with a later \<^verbatim>\<open>retry_at\<close> can remain.
\<close>

theorem C4_no_ready_job_left:
  assumes "processAllPendingJobs env dryRun d = Some (n, d', visits)"
  shows "(\<forall>j \<in> set (syncJobs d'). \<not> (status j = PENDING \<and> retryAt j \<le> now_select (env n)))
     \<and> (\<forall>j \<in> set (syncJobs d'). retryAt j mod 1000 = 0 \<longrightarrow>
            \<not> (status j = PENDING \<and> retryAt j div 1000 \<le> now_select (env n) div 1000))
     \<and> (\<forall>j \<in> set (syncJobs d'). SyncJobStatus_text (status j) \<noteq> ''PROCESSING'')"
proof -
  from processAllPendingJobs_sound(2) [OF assms]
  have 1: "\<forall>j \<in> set (syncJobs d'). \<not> (status j = PENDING \<and> retryAt j \<le> now_select (env n))"
    by (simp add: getNextPendingJob_None ready_def)
  have 2: "\<forall>j \<in> set (syncJobs d'). retryAt j mod 1000 = 0 \<longrightarrow>
            \<not> (status j = PENDING \<and> retryAt j div 1000 \<le> now_select (env n) div 1000)"
  proof (intro ballI impI)
    fix j assume j: "j \<in> set (syncJobs d')" and w: "retryAt j mod 1000 = 0"
    have eq: "(retryAt j \<le> now_select (env n))
                = (retryAt j div 1000 \<le> now_select (env n) div 1000)"
      by (rule whole_second_le [OF w])
    from 1 j have nr: "\<not> (status j = PENDING \<and> retryAt j \<le> now_select (env n))" by blast
    from nr [unfolded eq]
    show "\<not> (status j = PENDING \<and> retryAt j div 1000 \<le> now_select (env n) div 1000)" .
  qed
  have 3: "\<forall>j \<in> set (syncJobs d'). SyncJobStatus_text (status j) \<noteq> ''PROCESSING''"
  proof
    fix j show "SyncJobStatus_text (status j) \<noteq> ''PROCESSING''"
      by (cases "status j") simp_all
  qed
  show ?thesis by (rule conjI [OF 1 conjI [OF 2 3]])
qed

theorem C4_no_ready_job_left_witness:
  "processAllPendingJobs always_failing False (enqueueJob update_a False 5250 empty_db) \<noteq> None
   \<and> list_all (\<lambda>j. \<not> (status j = PENDING \<and> retryAt j \<le> now_select (always_failing 1)))
        (syncJobs retried_once)
   \<and> list_all (\<lambda>j. retryAt j mod 1000 = 0) (syncJobs retried_once)
   \<and> list_all (\<lambda>j. \<not> (status j = PENDING
                        \<and> retryAt j div 1000 \<le> now_select (always_failing 1) div 1000))
        (syncJobs retried_once)
   \<and> map status (syncJobs retried_once) = [PENDING]
   \<and> map retryAt (syncJobs retried_once) = [6000]"
proof -
  note c4 = C4_no_ready_job_left [OF always_failing_run]
  have a: "\<forall>j \<in> set (syncJobs retried_once).
          \<not> (status j = PENDING \<and> retryAt j \<le> now_select (always_failing 1))"
    by (rule conjunct1 [OF c4])
  have w: "\<forall>j \<in> set (syncJobs retried_once). retryAt j mod 1000 = 0"
    by (simp add: retried_once_def)
  have "\<forall>j \<in> set (syncJobs retried_once). retryAt j mod 1000 = 0 \<longrightarrow>
            \<not> (status j = PENDING \<and> retryAt j div 1000 \<le> now_select (always_failing 1) div 1000)"
    by (rule conjunct1 [OF conjunct2 [OF c4]])
  with w have b: "\<forall>j \<in> set (syncJobs retried_once).
            \<not> (status j = PENDING \<and> retryAt j div 1000 \<le> now_select (always_failing 1) div 1000)"
    by blast
  have c: "map status (syncJobs retried_once) = [PENDING]"
    "map retryAt (syncJobs retried_once) = [6000]"
    "processAllPendingJobs always_failing False (enqueueJob update_a False 5250 empty_db) \<noteq> None"
    using always_failing_run by (simp_all add: retried_once_def)
  from a w b c show ?thesis by (simp only: list_all_iff) simp
qed

text \<open>
  C5 (the code differs): "the clock returned with a batch is persisted only after all
  file events of the batch have been enqueued". The query phase of \<^verbatim>\<open>runOneShotSync\<close>
  never touches the job store, and for the directory \<^verbatim>\<open>/w\<close> with one changed file it
  ends with the clock of the answer saved, the file in the buffer and the job store
  still empty; \<^verbatim>\<open>queryAllChanges\<close> calls \<^verbatim>\<open>setClock\<close> before it hands the batch over.
\<close>

theorem C5_clock_saved_before_enqueue:
  "jobs_db (query_all realpathSync queryWatchman sync_dirs m) = jobs_db m
   \<and> getClock ''/w'' (query_all same_path one_file_response [''/w''] fresh_module) = Some ''c:1:7''
   \<and> map fst (pendingChanges (query_all same_path one_file_response [''/w''] fresh_module))
       = [''a.txt'']
   \<and> syncJobs (jobs_db (query_all same_path one_file_response [''/w''] fresh_module)) = []
   \<and> queryAllChanges same_path one_file_response no_clock False [''/w'']
       = ([SetClock ''/w'' ''c:1:7'' False,
           OnFileChangeBatch [\<lparr>fc_name = ''a.txt'', fc_size = 10, fc_mtime_ms = 100,
              fc_exists = True, fc_type = ''f'', fc_watchRoot = ''/w'', fc_clock = None\<rparr>]], 1)"
proof (rule conjI)
  show "jobs_db (query_all realpathSync queryWatchman sync_dirs m) = jobs_db m"
    by (rule jobs_db_query_all)
qed (simp add: query_all_def oneShot_dir_def getClock_def setClock_def
      queueChange_def one_file_response_def fresh_module_def empty_db_def Let_def
      queryAllChanges_def queryAllChanges_dir_def no_clock_def same_path_def)




text \<open>
  C7 (as stated, refuted): "a row that reached n_retries = MAX_RETRIES after its last
  executor visit has status SYNCED or BLOCKED and is never attempted again". A job that
  fails ten times has \<^verbatim>\<open>n_retries\<close> = 10 after its tenth visit and is still PENDING: the
  test \<^verbatim>\<open>nRetries >= MAX_RETRIES\<close> reads the count before the visit, and the executor
  visits the job an eleventh time.
\<close>

theorem C7_tenth_failure_still_pending_counterexample:
  "map nRetries (syncJobs (run_ops ten_failures empty_db)) = [MAX_RETRIES]
   \<and> map status (syncJobs (run_ops ten_failures empty_db)) = [PENDING]
   \<and> map att_job (snd (snd (processNextJob (failing_at 11) False (run_ops ten_failures empty_db))))
       = [1]"
  by (simp add: run_ops_def ten_failures_def failing_at_def upt_rec exec_defs retry_defs)

text \<open>
  C7 (amended): a failed visit is routed by the retry bound: if the job's \<^verbatim>\<open>n_retries\<close>
  at the failure is at least 10 the row is marked BLOCKED with the error stored,
  otherwise the retry is scheduled. In every store reached from the empty store by
  enqueue and executor operations every row has \<^verbatim>\<open>n_retries\<close> at most 10. A row that
  is SYNCED or BLOCKED is never visited again and stays as it is under every later
  operation. (A row whose tenth failure brought \<^verbatim>\<open>n_retries\<close> to 10 is still PENDING
  and is visited once more.)
\<close>

theorem C7_routing_and_retry_bound:
  "(getNextPendingJob (now_select t) d = Some job \<and> run_job t job = (Some msg, calls) \<longrightarrow>
      processNextJob t False d =
        (True,
         (if nRetries job \<ge> MAX_RETRIES then markJobBlocked (job_id job) msg False d
          else scheduleRetry (job_id job) (nRetries job) msg False (now_retry t) (random t) d),
         [\<lparr>att_job = job_id job, att_calls = calls, att_error = Some msg\<rparr>]))
   \<and> (\<forall>r \<in> set (syncJobs (markJobBlocked i msg False d)).
         job_id r = i \<longrightarrow> status r = BLOCKED \<and> lastError r = Some msg)
   \<and> (\<forall>r \<in> set (syncJobs (run_ops ops empty_db)). nRetries r \<le> MAX_RETRIES)
   \<and> (\<forall>r \<in> set (syncJobs (run_ops ops empty_db)). status r \<noteq> PENDING \<longrightarrow>
         r \<in> set (syncJobs (run_ops (ops @ later) empty_db)) \<and>
         (\<forall>a \<in> set (snd (snd (processNextJob t' dryRun' (run_ops ops empty_db)))).
            att_job a \<noteq> job_id r))"
proof -
  have route: "processNextJob t False d =
        (True,
         (if nRetries job \<ge> MAX_RETRIES then markJobBlocked (job_id job) msg False d
          else scheduleRetry (job_id job) (nRetries job) msg False (now_retry t) (random t) d),
         [\<lparr>att_job = job_id job, att_calls = calls, att_error = Some msg\<rparr>])"
    if "getNextPendingJob (now_select t) d = Some job \<and> run_job t job = (Some msg, calls)"
    using that processNextJob_failed [of t d job msg calls False] by simp
  note blocked = markJobBlocked_rows [of i msg d]
  note inv = store_inv_run_ops [of ops]
  note bound = retries_bounded_run_ops [of ops]
  have settled: "r \<in> set (syncJobs (run_ops (ops @ later) empty_db)) \<and>
         (\<forall>a \<in> set (snd (snd (processNextJob t' dryRun' (run_ops ops empty_db)))).
            att_job a \<noteq> job_id r)"
    if r: "r \<in> set (syncJobs (run_ops ops empty_db))" and s: "status r \<noteq> PENDING" for r
  proof -
    have "run_ops (ops @ later) empty_db = foldl apply_op (run_ops ops empty_db) later"
      by (simp add: run_ops_def)
    with settled_row_foldl [OF inv r s, of later]
    have "r \<in> set (syncJobs (run_ops (ops @ later) empty_db))" by simp
    moreover have "\<forall>a \<in> set (snd (snd (processNextJob t' dryRun' (run_ops ops empty_db)))).
            att_job a \<noteq> job_id r"
      using settled_row_not_visited [OF inv r s] by blast
    ultimately show ?thesis by simp
  qed
  have c1: "getNextPendingJob (now_select t) d = Some job \<and> run_job t job = (Some msg, calls) \<longrightarrow>
      processNextJob t False d =
        (True,
         (if nRetries job \<ge> MAX_RETRIES then markJobBlocked (job_id job) msg False d
          else scheduleRetry (job_id job) (nRetries job) msg False (now_retry t) (random t) d),
         [\<lparr>att_job = job_id job, att_calls = calls, att_error = Some msg\<rparr>])"
  proof
    assume "getNextPendingJob (now_select t) d = Some job \<and> run_job t job = (Some msg, calls)"
    then show "processNextJob t False d =
        (True,
         (if nRetries job \<ge> MAX_RETRIES then markJobBlocked (job_id job) msg False d
          else scheduleRetry (job_id job) (nRetries job) msg False (now_retry t) (random t) d),
         [\<lparr>att_job = job_id job, att_calls = calls, att_error = Some msg\<rparr>])"
      by (rule route)
  qed
  have c4: "\<forall>r \<in> set (syncJobs (run_ops ops empty_db)). status r \<noteq> PENDING \<longrightarrow>
         r \<in> set (syncJobs (run_ops (ops @ later) empty_db)) \<and>
         (\<forall>a \<in> set (snd (snd (processNextJob t' dryRun' (run_ops ops empty_db)))).
            att_job a \<noteq> job_id r)"
  proof (intro ballI impI)
    fix r assume "r \<in> set (syncJobs (run_ops ops empty_db))" "status r \<noteq> PENDING"
    then show "r \<in> set (syncJobs (run_ops (ops @ later) empty_db)) \<and>
         (\<forall>a \<in> set (snd (snd (processNextJob t' dryRun' (run_ops ops empty_db)))).
            att_job a \<noteq> job_id r)"
      by (rule settled)
  qed
  show ?thesis
    by (rule conjI [OF c1 conjI [OF blocked conjI [OF bound c4]]])
qed

theorem C7_routing_and_retry_bound_witness:
  "processNextJob (failing_at 11) False (run_ops ten_failures empty_db)
     = (True, markJobBlocked 1 ''NetworkTransient'' False (run_ops ten_failures empty_db),
        [\<lparr>att_job = 1, att_calls = [], att_error = Some ''NetworkTransient''\<rparr>])
   \<and> map status (syncJobs (run_ops eleven_failures empty_db)) = [BLOCKED]
   \<and> list_all (\<lambda>r. nRetries r \<le> MAX_RETRIES) (syncJobs (run_ops eleven_failures empty_db))
   \<and> hd (syncJobs (run_ops eleven_failures empty_db))
       \<in> set (syncJobs (run_ops (eleven_failures @ [Process (failing_at 12) False]) empty_db))
   \<and> snd (snd (processNextJob (failing_at 12) False (run_ops eleven_failures empty_db))) = []"
proof -
  let ?job = "\<lparr>eventType = UPDATE, localPath = ''/w/a.txt'', remotePath = ''w/a.txt'',
       job_id = 1, status = PENDING, retryAt = 10300000, nRetries = 10,
       lastError = Some ''NetworkTransient'', createdAt = 0\<rparr>"
  have sel: "getNextPendingJob (now_select (failing_at 11)) (run_ops ten_failures empty_db)
               = Some ?job"
    by (simp add: getNextPendingJob_def ten_failures_run orderBy_retryAt_limit1_def ready_def
        failing_at_def failing_tick_def)
  have rj: "run_job (failing_at 11) ?job = (Some ''NetworkTransient'', [])"
    by (simp add: run_job_def failing_at_def failing_tick_def Error_message_def)
  note c7 = C7_routing_and_retry_bound [of "failing_at 11" "run_ops ten_failures empty_db" ?job "''NetworkTransient''"
      "[]" 1 eleven_failures "[Process (failing_at 12) False]" "failing_at 12" False]
  from c7 sel rj
  have 1: "processNextJob (failing_at 11) False (run_ops ten_failures empty_db)
     = (True, markJobBlocked 1 ''NetworkTransient'' False (run_ops ten_failures empty_db),
        [\<lparr>att_job = 1, att_calls = [], att_error = Some ''NetworkTransient''\<rparr>])"
    by (simp add: MAX_RETRIES_def)
  from c7 have 2: "list_all (\<lambda>r. nRetries r \<le> MAX_RETRIES) (syncJobs (run_ops eleven_failures empty_db))"
    by (simp add: list_all_iff)
  have mem: "hd (syncJobs (run_ops eleven_failures empty_db))
               \<in> set (syncJobs (run_ops eleven_failures empty_db))"
    "status (hd (syncJobs (run_ops eleven_failures empty_db))) \<noteq> PENDING"
    by (simp_all add: eleven_failures_run)
  from c7 mem
  have 3: "hd (syncJobs (run_ops eleven_failures empty_db))
       \<in> set (syncJobs (run_ops (eleven_failures @ [Process (failing_at 12) False]) empty_db))"
    by blast
  have 4: "snd (snd (processNextJob (failing_at 12) False (run_ops eleven_failures empty_db))) = []"
    by (simp add: processNextJob_def getNextPendingJob_def eleven_failures_run
        orderBy_retryAt_limit1_def ready_def)
  from 1 2 3 4 show ?thesis by (simp add: eleven_failures_run)
qed

text \<open>
  C8: processing a DELETE job whose remote path has no node on the drive (no node of the
  name in any folder reached along the parent path, or no such folder) makes
  \<^verbatim>\<open>deleteNode\<close> return success with \<^verbatim>\<open>existed\<close> false, issues no trash or delete call,
  and marks the job SYNCED in that visit, with \<^verbatim>\<open>n_retries\<close> untouched. The drive
  answers the root folder lookup, and the run is not a dry run.
\<close>

theorem C8_delete_of_absent_node:
  assumes "getNextPendingJob (now_select t) d = Some job" "eventType job = DELETE"
    "rf_ok (getMyFilesRootFolder (client t))"
    "rf_value (getMyFilesRootFolder (client t)) = Some rootUid"
    "\<not> remote_node_exists (client t) rootUid
         (fst (parsePath (remotePath job))) (snd (parsePath (remotePath job)))"
  shows "\<exists>calls. deleteNode (client t) (remotePath job) False = (Inr not_existed, calls)
          \<and> del_success not_existed \<and> \<not> del_existed not_existed
          \<and> (\<forall>x \<in> set calls. \<not> is_removal x)
          \<and> processNextJob t False d =
               (True, markJobSynced (job_id job) False d,
                [\<lparr>att_job = job_id job, att_calls = calls, att_error = None\<rparr>])
          \<and> (\<forall>r \<in> set (syncJobs (markJobSynced (job_id job) False d)).
                job_id r = job_id job \<longrightarrow> status r = SYNCED)
          \<and> map nRetries (syncJobs (markJobSynced (job_id job) False d))
               = map nRetries (syncJobs d)"
proof -
  from deleteNode_absent [OF assms(3,4,5), of False]
  obtain calls where del: "deleteNode (client t) (remotePath job) False = (Inr not_existed, calls)"
    and nc: "\<forall>x \<in> set calls. \<not> is_removal x" by blast
  from del assms(2) have "run_job t job = (None, calls)"
    by (simp add: run_job_def not_existed_def)
  from processNextJob_completed [OF assms(1) this, of False]
  have p: "processNextJob t False d =
               (True, markJobSynced (job_id job) False d,
                [\<lparr>att_job = job_id job, att_calls = calls, att_error = None\<rparr>])" .
  have s: "\<forall>r \<in> set (syncJobs (markJobSynced (job_id job) False d)).
                job_id r = job_id job \<longrightarrow> status r = SYNCED"
    using markJobSynced_rows [of "job_id job" d] by blast
  have e: "del_success not_existed \<and> \<not> del_existed not_existed"
    by (simp add: not_existed_def)
  from del e nc p s map_nRetries_markJobSynced [of "job_id job" False d]
  show ?thesis by (intro exI [of _ calls]) simp
qed

theorem C8_delete_of_absent_node_witness:
  "processNextJob (succeeding_tick 5250) False (enqueueJob delete_a False 5250 empty_db)
     = (True, markJobSynced 1 False (enqueueJob delete_a False 5250 empty_db),
        [\<lparr>att_job = 1, att_calls = [GetMyFilesRootFolder, IterateFolderChildren ''root''],
          att_error = None\<rparr>])
   \<and> map status (syncJobs (markJobSynced 1 False (enqueueJob delete_a False 5250 empty_db)))
       = [SYNCED]
   \<and> remotePath delete_a = ''w/a.txt''
   \<and> \<not> remote_node_exists empty_drive ''root'' [''w''] ''a.txt''"
proof -
  let ?job = "\<lparr>eventType = DELETE, localPath = ''/w/a.txt'', remotePath = ''w/a.txt'',
             job_id = 1, status = PENDING, retryAt = 5000, nRetries = 0, lastError = None,
             createdAt = 5000\<rparr>"
  have h: "eventType ?job = DELETE"
    "rf_ok (getMyFilesRootFolder (client (succeeding_tick 5250)))"
    "rf_value (getMyFilesRootFolder (client (succeeding_tick 5250))) = Some ''root''"
    "\<not> remote_node_exists (client (succeeding_tick 5250)) ''root''
         (fst (parsePath (remotePath ?job))) (snd (parsePath (remotePath ?job)))"
    using delete_a_absent by (simp_all add: succeeding_tick_def empty_drive_def parsePath_w_a)
  from C8_delete_of_absent_node [OF delete_a_selected h]
  obtain calls where
    p: "processNextJob (succeeding_tick 5250) False (enqueueJob delete_a False 5250 empty_db) =
          (True, markJobSynced (job_id ?job) False (enqueueJob delete_a False 5250 empty_db),
           [\<lparr>att_job = job_id ?job, att_calls = calls, att_error = None\<rparr>])"
    and d: "deleteNode (client (succeeding_tick 5250)) (remotePath ?job) False = (Inr not_existed, calls)"
    by blast
  have "deleteNode (client (succeeding_tick 5250)) (remotePath ?job) False
          = (Inr not_existed, [GetMyFilesRootFolder, IterateFolderChildren ''root''])"
    by (simp add: succeeding_tick_def deleteNode_def parsePath_w_a empty_drive_def
        findNodeByName_def truthy_def not_existed_def)
  with d have "calls = [GetMyFilesRootFolder, IterateFolderChildren ''root'']" by simp
  with p delete_a_absent show ?thesis
    by (simp add: markJobSynced_def update_where_id_def enqueueJob_def delete_a_def empty_db_def)
qed

text \<open>
  C9: \<^verbatim>\<open>processNextJob\<close> returns false exactly when the store holds no PENDING job with
  \<^verbatim>\<open>retry_at\<close> at or before now; when a job is selected it returns true and visits that
  job, whatever the remote operation does; the number \<^verbatim>\<open>processAllPendingJobs\<close> returns
  is the number of visits, failed ones included.
\<close>

theorem C9_processNextJob_result:
  "(\<not> fst (processNextJob t dryRun d))
      = (\<not> (\<exists>j \<in> set (syncJobs d). status j = PENDING \<and> retryAt j \<le> now_select t))
   \<and> (getNextPendingJob (now_select t) d = Some job \<longrightarrow>
        fst (processNextJob t dryRun d) \<and>
        map att_job (snd (snd (processNextJob t dryRun d))) = [job_id job])
   \<and> (processAllPendingJobs env dryRun d = Some (n, d', visits) \<longrightarrow> n = length visits)"
proof -
  have "(\<not> fst (processNextJob t dryRun d))
      = (\<not> (\<exists>j \<in> set (syncJobs d). status j = PENDING \<and> retryAt j \<le> now_select t))"
    by (simp add: processNextJob_fst getNextPendingJob_None ready_def)
  moreover have "fst (processNextJob t dryRun d) \<and>
        map att_job (snd (snd (processNextJob t dryRun d))) = [job_id job]"
    if "getNextPendingJob (now_select t) d = Some job"
    using that by (auto simp: processNextJob_def split: prod.splits option.splits)
  moreover have "n = length visits"
    if "processAllPendingJobs env dryRun d = Some (n, d', visits)"
    using processAllPendingJobs_sound(1) [OF that] by simp
  ultimately show ?thesis by blast
qed

theorem C9_processNextJob_result_witness:
  "\<not> fst (processNextJob (failing_tick 5250 0) False empty_db)
   \<and> fst (processNextJob (failing_tick 5250 0) False (enqueueJob update_a False 5250 empty_db))
   \<and> processAllPendingJobs always_failing False (enqueueJob update_a False 5250 empty_db)
       = Some (1, retried_once,
           [\<lparr>att_job = 1, att_calls = [], att_error = Some ''NetworkTransient''\<rparr>])
   \<and> (1::nat) = length [\<lparr>att_job = 1, att_calls = [], att_error = Some ''NetworkTransient''\<rparr>]
   \<and> count_status SYNCED retried_once = 0"
proof -
  have sel: "getNextPendingJob (now_select (failing_tick 5250 0)) (enqueueJob update_a False 5250 empty_db)
      = Some \<lparr>eventType = UPDATE, localPath = ''/w/a.txt'', remotePath = ''w/a.txt'',
             job_id = 1, status = PENDING, retryAt = 5000, nRetries = 0, lastError = None,
             createdAt = 5000\<rparr>"
    by (simp add: exec_defs)
  note a = C9_processNextJob_result [of "failing_tick 5250 0" False empty_db]
  note b = C9_processNextJob_result [of "failing_tick 5250 0" False "enqueueJob update_a False 5250 empty_db" _
      always_failing 1 retried_once
      "[\<lparr>att_job = 1, att_calls = [], att_error = Some ''NetworkTransient''\<rparr>]"]
  from a have "\<not> fst (processNextJob (failing_tick 5250 0) False empty_db)"
    by (simp add: empty_db_def)
  moreover from b sel
  have "fst (processNextJob (failing_tick 5250 0) False (enqueueJob update_a False 5250 empty_db))"
    by blast
  moreover from b always_failing_run
  have "(1::nat) = length [\<lparr>att_job = 1, att_calls = [], att_error = Some ''NetworkTransient''\<rparr>]"
    by blast
  ultimately show ?thesis
    using always_failing_run by (simp add: count_status_def retried_once_def)
qed

text \<open>
  C10: \<^verbatim>\<open>create\<close> on a local path that does not exist and has no trailing slash returns
  failure, not a directory, with the error "Path not found: ...", and issues no call to
  the drive client.
\<close>

theorem C10_create_missing_path:
  assumes "statSync localPath' = None" "\<not> endsWith_slash localPath'"
  shows "create c statSync localPath' =
           (Inr \<lparr>cr_success = False, cr_nodeUid = None,
                 cr_error = Some (''Path not found: '' @ localPath'
                    @ ''. For creating a new directory, add a trailing slash.''),
                 cr_isDirectory = False\<rparr>, [])"
  using assms by (simp add: create_def)

theorem C10_create_missing_path_witness:
  "nothing_local ''docs/missing.txt'' = None \<and> \<not> endsWith_slash ''docs/missing.txt''
   \<and> create empty_drive nothing_local ''docs/missing.txt'' =
           (Inr \<lparr>cr_success = False, cr_nodeUid = None,
                 cr_error = Some ''Path not found: docs/missing.txt. For creating a new directory, add a trailing slash.'',
                 cr_isDirectory = False\<rparr>, [])"
proof -
  have h: "nothing_local ''docs/missing.txt'' = None" "\<not> endsWith_slash ''docs/missing.txt''"
    by (simp_all add: nothing_local_def endsWith_slash_def)
  from C10_create_missing_path [of nothing_local "''docs/missing.txt''" empty_drive, OF h] h show ?thesis by simp
qed

end
